theory Spec2Isabelle
  imports Main
begin

section \<open>git-password: a shallow embedding of main.c\<close>

text \<open>
  The program is one C file. It is called by git with one argument, the prompt git wants
  answered (\<open>Username: \<close> or \<open>Password: \<close>), checks that git is among its ancestors in the
  process table, derives a keychain key from the URL of the remote, and answers from the
  macOS keychain, asking the user and creating the keychain item when there is none.

  The C functions are translated one by one, under their own names. What they call from the
  platform (the process table, \<open>git config\<close>, the terminal, the keychain) is an input of the
  model: the record \<open>platform\<close> holds what the platform answers during one run, the record
  \<open>state\<close> what a run changes (the keychain) and the calls it has made.
\<close>

subsection \<open>The platform\<close>

type_synonym pid_t = int
type_synonym OSStatus = int

text \<open>
  The status codes of the Security framework that the program names or can meet. They come
  from the framework's headers; \<open>errSecSuccess\<close> is the \<open>0\<close> that \<open>security\<close> tests for.
\<close>

definition errSecSuccess :: OSStatus where
  "errSecSuccess = 0"

definition errSecItemNotFound :: OSStatus where
  "errSecItemNotFound = - 25300"

definition errSecDuplicateItem :: OSStatus where
  "errSecDuplicateItem = - 25299"

text \<open>
  One entry of the process table (\<open>struct kinfo_proc\<close>), with the three fields the program
  reads: \<open>kp_proc.p_pid\<close>, \<open>kp_proc.p_comm\<close> and \<open>kp_eproc.e_ppid\<close>. Pids are only compared,
  never computed with, so they are plain integers.
\<close>

record kinfo_proc =
  p_pid :: pid_t
  p_comm :: string
  e_ppid :: pid_t

text \<open>
  What the two \<open>sysctl\<close> calls for \<open>KERN_PROC_ALL\<close> and the \<open>malloc\<close> between them give:
  a failure of either \<open>sysctl\<close>, a failure of \<open>malloc\<close>, or the table.
\<close>

datatype proc_all = Sysctl_failed | Malloc_failed | Processes "kinfo_proc list"

text \<open>
  The attribute tags of a keychain item (four-character codes in the headers; the program
  only compares a tag with \<open>kSecAccountItemAttr\<close>), and a keychain item: its attribute list
  and its secret data.
\<close>

datatype SecItemAttr =
  kSecLabelItemAttr | kSecDescriptionItemAttr | kSecAccountItemAttr | kSecServiceItemAttr
  | kSecOtherItemAttr nat

record keychain_item =
  attr :: "(SecItemAttr \<times> string) list"
  secret :: string

text \<open>
  The calls that leave the process, in the order they are made. \<open>Verify\<close> stands for the
  call of \<open>is_git_calling_us\<close> with its reads of the process table, \<open>Git_config\<close> for
  the call of \<open>git_config\<close>, \<open>SecFind\<close> for \<open>SecKeychainFindGenericPassword\<close> with the
  service name, \<open>SecCopy\<close> for \<open>SecKeychainItemCopyAttributesAndData\<close> with whether the
  password is asked for, \<open>Getpass\<close> for \<open>getpass\<close> with the prompt, and \<open>SecCreate\<close>
  for \<open>SecKeychainItemCreateFromContent\<close> with the service, the account and the password.
  \<open>SecKeychainAttributeInfoForItemID\<close>, which reads the schema only, is not recorded.
\<close>

datatype event =
  Verify
  | Git_config
  | SecFind string
  | SecCopy bool
  | Getpass string
  | SecCreate string string string

text \<open>
  How a run ends: \<open>main\<close> returns \<open>0\<close> after printing a string on standard output;
  \<open>fatal\<close> prints \<open>fatal: message\<close> on the terminal and calls \<open>exit(-1)\<close>; the ancestry
  walk never ends; or the program reads a pointer that was never set (undefined behaviour
  in C).
\<close>

datatype outcome = Returned string | Fatal string | Hang | Undefined_behaviour

text \<open>
  What the platform answers during one run.
  \<^item> \<open>argv\<close>: the argument vector, \<open>argv[0]\<close> included, so \<open>argc = length argv\<close>.
  \<^item> \<open>getppid\<close>, \<open>sysctl_proc_all\<close>: the parent pid and the snapshot of the process table.
  \<^item> \<open>sysctl_proc_pid\<close>: the answer of \<open>sysctl\<close> for \<open>KERN_PROC_PID\<close> and a pid, asked at
    every hop of the walk; \<open>None\<close> when the call fails. It is a reading of the process
    table as it is during the walk: nothing ties it to the snapshot, and within one walk
    the same pid gets the same answer.
  \<^item> \<open>git_origin_url\<close>: what \<open>git_config("remote.origin.url")\<close> gives: the message of the
    \<open>fatal\<close> it ends in (\<open>Inl\<close>), or the line it returns (\<open>Inr\<close>).
  \<^item> \<open>getpass\<close>: what the user types at a prompt; \<open>None\<close> when \<open>getpass\<close> returns \<open>NULL\<close>.
  \<^item> \<open>find_fault\<close>, \<open>info_status\<close>, \<open>copy_status\<close>, \<open>create_fault\<close>: the status of a
    keychain call that fails for a reason outside the keychain's contents as the run sees
    them (locked, access denied, an item added by another process meanwhile); \<open>0\<close> when
    there is none.
  \<^item> \<open>SecCopyErrorMessageString\<close>: the framework's message for a status.
\<close>

record platform =
  argv :: "string list"
  getppid :: pid_t
  sysctl_proc_all :: proc_all
  sysctl_proc_pid :: "pid_t \<Rightarrow> kinfo_proc option"
  git_origin_url :: "string + string"
  getpass :: "string \<Rightarrow> string option"
  find_fault :: OSStatus
  info_status :: OSStatus
  copy_status :: OSStatus
  create_fault :: OSStatus
  SecCopyErrorMessageString :: "OSStatus \<Rightarrow> string"

text \<open>
  What a run changes: the items of the keychain (oldest first), and the calls made so far.
\<close>

record state =
  keychain :: "keychain_item list"
  events :: "event list"

definition emit :: "event \<Rightarrow> state \<Rightarrow> state" where
  "emit e s = s\<lparr>events := events s @ [e]\<rparr>"

text \<open>
  The keychain calls. \<open>SecKeychainFindGenericPassword\<close> is called with a service name and
  no account: it finds the first generic password item of that service.
  \<open>SecKeychainItemCreateFromContent\<close> refuses an item whose service and account are those of
  an item already there, and adds the item otherwise.
\<close>

definition item_attr :: "SecItemAttr \<Rightarrow> keychain_item \<Rightarrow> string option" where
  "item_attr t item = map_of (attr item) t"

definition SecKeychainFindGenericPassword ::
    "platform \<Rightarrow> state \<Rightarrow> string \<Rightarrow> OSStatus \<times> keychain_item option" where
  "SecKeychainFindGenericPassword env s service =
     (if find_fault env \<noteq> 0 then (find_fault env, None)
      else (case List.find (\<lambda>item. item_attr kSecServiceItemAttr item = Some service) (keychain s) of
              None \<Rightarrow> (errSecItemNotFound, None)
            | Some item \<Rightarrow> (errSecSuccess, Some item)))"

definition SecKeychainItemCreateFromContent ::
    "platform \<Rightarrow> state \<Rightarrow> (SecItemAttr \<times> string) list \<Rightarrow> string \<Rightarrow> OSStatus \<times> state" where
  "SecKeychainItemCreateFromContent env s attributes data =
     (if create_fault env \<noteq> 0 then (create_fault env, s)
      else if List.find (\<lambda>item. item_attr kSecServiceItemAttr item = map_of attributes kSecServiceItemAttr
                                \<and> item_attr kSecAccountItemAttr item = map_of attributes kSecAccountItemAttr)
                (keychain s) \<noteq> None
      then (errSecDuplicateItem, s)
      else (errSecSuccess, s\<lparr>keychain := keychain s @ [\<lparr>attr = attributes, secret = data\<rparr>]\<rparr>))"

subsection \<open>fatal, security_fatal, security\<close>

text \<open>
  A function of the program that can end the run returns \<open>Inl\<close> with how it ended, or
  \<open>Inr\<close> with its value, and the state it leaves. The parameter \<open>terminal\<close> of the C
  functions, the stream \<open>fatal\<close> writes to, is left out.
\<close>

definition fatal :: "string \<Rightarrow> state \<Rightarrow> (outcome + 'a) \<times> state" where
  "fatal message s = (Inl (Fatal message), s)"

definition security_fatal :: "platform \<Rightarrow> OSStatus \<Rightarrow> state \<Rightarrow> (outcome + 'a) \<times> state" where
  "security_fatal env status s = fatal (SecCopyErrorMessageString env status) s"

definition security :: "platform \<Rightarrow> OSStatus \<Rightarrow> state \<Rightarrow> (outcome + unit) \<times> state" where
  "security env status s = (if status \<noteq> 0 then security_fatal env status s else (Inr (), s))"

subsection \<open>is_git_calling_us\<close>

text \<open>
  The \<open>while\<close> loop of \<open>is_git_calling_us\<close>. The inner \<open>for\<close> loop stops at the first
  entry of the snapshot whose pid is \<open>parent_pid\<close>, so it is \<open>List.find\<close>. For that entry the
  program asks \<open>sysctl\<close> for the process again (fatal when the call fails), takes the next
  \<open>parent_pid\<close> from that answer, and only then compares the name in the snapshot with
  \<open>git\<close>. The loop may run forever: \<open>None\<close> is a walk that never ends. \<open>Inl\<close> carries the
  message of \<open>fatal\<close>, \<open>Inr\<close> the value returned (\<open>1\<close> as \<open>True\<close>).
\<close>

partial_function (option) walk ::
    "kinfo_proc list \<Rightarrow> (pid_t \<Rightarrow> kinfo_proc option) \<Rightarrow> pid_t \<Rightarrow> (string + bool) option" where
  "walk processes proc_pid parent_pid =
     (if parent_pid \<noteq> 0 \<and> parent_pid \<noteq> 1 then
        (case List.find (\<lambda>process. parent_pid = p_pid process) processes of
           None \<Rightarrow> Some (Inr False)
         | Some process \<Rightarrow>
             (case proc_pid parent_pid of
                None \<Rightarrow> Some (Inl ''sysctl PROC_PID failed'')
              | Some info \<Rightarrow>
                  if p_comm process = ''git'' then Some (Inr True)
                  else walk processes proc_pid (e_ppid info)))
      else Some (Inr False))"

declare walk.simps [code]

definition is_git_calling_us :: "platform \<Rightarrow> (string + bool) option" where
  "is_git_calling_us env =
     (case sysctl_proc_all env of
        Sysctl_failed \<Rightarrow> Some (Inl ''sysctl failed'')
      | Malloc_failed \<Rightarrow> Some (Inl ''unable to allocate memory'')
      | Processes processes \<Rightarrow> walk processes (sysctl_proc_pid env) (getppid env))"

subsection \<open>trim_repository\<close>

text \<open>
  \<open>strchr\<close> on a C string, as the index of the first occurrence. \<open>trim_repository\<close> skips
  \<open>strlen("https://")\<close> characters, whatever they are, looks for the first \<open>/\<close> after
  them and ends the string right after it.
\<close>

fun strchr :: "string \<Rightarrow> char \<Rightarrow> nat option" where
  "strchr [] c = None"
| "strchr (x # xs) c = (if x = c then Some 0 else map_option Suc (strchr xs c))"

definition trim_repository :: "string \<Rightarrow> string" where
  "trim_repository repository =
     (if length repository > length ''https://'' then
        (case strchr (drop (length ''https://'') repository) CHR ''/'' of
           None \<Rightarrow> repository
         | Some first_slash \<Rightarrow> take (length ''https://'' + first_slash + 1) repository)
      else repository)"

subsection \<open>find_keychain_item, create_keychain_item, prompt\<close>

text \<open>
  \<open>struct KeyChainItem\<close>. The struct comes from \<open>malloc\<close>, so \<open>username\<close> is \<open>None\<close> until
  the loop over the attributes sets it; \<open>password\<close> is \<open>None\<close> for the \<open>NULL\<close> the program
  stores when the password was not asked for. Where the program does not test what
  \<open>malloc\<close> returns, \<open>malloc\<close> is taken to succeed. In the functions below the local
  variables \<open>username\<close> and \<open>password\<close> of the C code are \<open>user\<close> and \<open>pass\<close>.
\<close>

record KeyChainItem =
  username :: "string option"
  password :: "string option"

text \<open>The loop over \<open>attributes->attr\<close>: every account attribute overwrites \<open>username\<close>.\<close>

fun attributes_loop :: "(SecItemAttr \<times> string) list \<Rightarrow> string option \<Rightarrow> string option" where
  "attributes_loop [] user = user"
| "attributes_loop (attribute # rest) user =
     attributes_loop rest (if fst attribute = kSecAccountItemAttr then Some (snd attribute) else user)"

definition find_keychain_item ::
    "platform \<Rightarrow> string \<Rightarrow> bool \<Rightarrow> state \<Rightarrow> (outcome + KeyChainItem option) \<times> state" where
  "find_keychain_item env repository include_password s =
     (case SecKeychainFindGenericPassword env s repository of
        (status, found) \<Rightarrow>
          let s1 = emit (SecFind repository) s in
          if status = errSecSuccess then
            (case found of
               None \<Rightarrow> (Inl Undefined_behaviour, s1)
             | Some item \<Rightarrow>
                 (case security env (info_status env) s1 of
                    (Inl stop, s2) \<Rightarrow> (Inl stop, s2)
                  | (Inr _, s2) \<Rightarrow>
                      (case security env (copy_status env) (emit (SecCopy include_password) s2) of
                         (Inl stop, s3) \<Rightarrow> (Inl stop, s3)
                       | (Inr _, s3) \<Rightarrow>
                           (Inr (Some \<lparr>username = attributes_loop (attr item) None,
                                       password = (if include_password then Some (secret item) else None)\<rparr>),
                            s3))))
          else if status = errSecItemNotFound then (Inr None, s1)
          else (case security env status s1 of
                  (Inl stop, s2) \<Rightarrow> (Inl stop, s2)
                | (Inr _, s2) \<Rightarrow> (Inr None, s2)))"

text \<open>The array \<open>attributes\<close> that \<open>create_keychain_item\<close> fills in.\<close>

definition keychain_attributes :: "string \<Rightarrow> string \<Rightarrow> (SecItemAttr \<times> string) list" where
  "keychain_attributes repository user =
     [(kSecLabelItemAttr, repository),
      (kSecDescriptionItemAttr, ''git repository password''),
      (kSecAccountItemAttr, user),
      (kSecServiceItemAttr, repository)]"

definition create_keychain_item ::
    "platform \<Rightarrow> string \<Rightarrow> string \<Rightarrow> string \<Rightarrow> state \<Rightarrow> (outcome + unit) \<times> state" where
  "create_keychain_item env repository user pass s =
     (case SecKeychainItemCreateFromContent env (emit (SecCreate repository user pass) s)
             (keychain_attributes repository user) pass of
        (status, s1) \<Rightarrow> security env status s1)"

text \<open>
  \<open>prompt\<close> copies what \<open>getpass\<close> returns; on \<open>NULL\<close> the \<open>strlen\<close> reads a null pointer.
  The byte that \<open>prompt\<close> writes after the end of its buffer is a matter of memory layout
  and has no place in this model.
\<close>

definition prompt :: "platform \<Rightarrow> string \<Rightarrow> state \<Rightarrow> (outcome + string) \<times> state" where
  "prompt env label s =
     (case getpass env label of
        None \<Rightarrow> (Inl Undefined_behaviour, emit (Getpass label) s)
      | Some temp \<Rightarrow> (Inr temp, emit (Getpass label) s))"

subsection \<open>get_username, get_password, main\<close>

definition get_username :: "platform \<Rightarrow> state \<Rightarrow> (outcome + string option) \<times> state" where
  "get_username env s =
     (case git_origin_url env of
        Inl message \<Rightarrow> fatal message (emit Git_config s)
      | Inr url \<Rightarrow>
          let repository = trim_repository url in
          (case find_keychain_item env repository False (emit Git_config s) of
             (Inl stop, s1) \<Rightarrow> (Inl stop, s1)
           | (Inr (Some item), s1) \<Rightarrow> (Inr (username item), s1)
           | (Inr None, s1) \<Rightarrow>
               (case prompt env ''Username: '' s1 of
                  (Inl stop, s2) \<Rightarrow> (Inl stop, s2)
                | (Inr user, s2) \<Rightarrow>
                    (case prompt env ''Password: '' s2 of
                       (Inl stop, s3) \<Rightarrow> (Inl stop, s3)
                     | (Inr pass, s3) \<Rightarrow>
                         (case create_keychain_item env repository user pass s3 of
                            (Inl stop, s4) \<Rightarrow> (Inl stop, s4)
                          | (Inr _, s4) \<Rightarrow> (Inr (Some user), s4))))))"

definition get_password :: "platform \<Rightarrow> state \<Rightarrow> (outcome + string option) \<times> state" where
  "get_password env s =
     (case git_origin_url env of
        Inl message \<Rightarrow> fatal message (emit Git_config s)
      | Inr url \<Rightarrow>
          let repository = trim_repository url in
          (case find_keychain_item env repository True (emit Git_config s) of
             (Inl stop, s1) \<Rightarrow> (Inl stop, s1)
           | (Inr (Some item), s1) \<Rightarrow> (Inr (password item), s1)
           | (Inr None, s1) \<Rightarrow>
               (case prompt env ''Password: '' s1 of
                  (Inl stop, s2) \<Rightarrow> (Inl stop, s2)
                | (Inr pass, s2) \<Rightarrow>
                    (case create_keychain_item env repository [] pass s2 of
                       (Inl stop, s3) \<Rightarrow> (Inl stop, s3)
                     | (Inr _, s3) \<Rightarrow> (Inr (Some pass), s3)))))"

text \<open>
  \<open>printf("%s", ...)\<close> of what the resolver returned, then \<open>return 0\<close>; a resolver that
  called \<open>fatal\<close> has ended the run already.
\<close>

definition print_result :: "(outcome + string option) \<times> state \<Rightarrow> outcome \<times> state" where
  "print_result r =
     (case r of
        (Inl stop, s) \<Rightarrow> (stop, s)
      | (Inr None, s) \<Rightarrow> (Undefined_behaviour, s)
      | (Inr (Some text), s) \<Rightarrow> (Returned text, s))"

definition main :: "platform \<Rightarrow> state \<Rightarrow> outcome \<times> state" where
  "main env s =
     (let s0 = emit Verify s in
      case is_git_calling_us env of
        None \<Rightarrow> (Hang, s0)
      | Some (Inl message) \<Rightarrow> (Fatal message, s0)
      | Some (Inr calling) \<Rightarrow>
          if \<not> calling then (Fatal ''can only be used by git'', s0)
          else if length (argv env) \<noteq> 2 then (Fatal ''can only be used by git'', s0)
          else if argv env ! 1 = ''Username: '' then print_result (get_username env s0)
          else if argv env ! 1 = ''Password: '' then print_result (get_password env s0)
          else (Fatal ''can only be used by git'', s0))"

subsection \<open>Notions the properties are stated with\<close>

text \<open>The calls of the terminal prompt and of the keychain's create, among the events.\<close>

fun prompt_call :: "event \<Rightarrow> bool" where
  "prompt_call (Getpass _) = True"
| "prompt_call _ = False"

fun create_call :: "event \<Rightarrow> bool" where
  "create_call (SecCreate _ _ _) = True"
| "create_call _ = False"

text \<open>
  The parent of a pid as the snapshot records it (the field \<open>e_ppid\<close> of its entry, which
  the walk never reads), and as the walk reads it at a hop.
\<close>

definition snapshot_parent :: "kinfo_proc list \<Rightarrow> pid_t \<Rightarrow> pid_t option" where
  "snapshot_parent processes p = map_option e_ppid (List.find (\<lambda>process. p = p_pid process) processes)"

definition hop_parent :: "(pid_t \<Rightarrow> kinfo_proc option) \<Rightarrow> pid_t \<Rightarrow> pid_t option" where
  "hop_parent proc_pid p = map_option e_ppid (proc_pid p)"

text \<open>
  Following the parent links \<open>parent\<close> from \<open>p\<close> comes to an end: at pid 0 or 1, at a pid
  that is not in the table, or at a pid that has no parent link.
\<close>

inductive reaches_end :: "kinfo_proc list \<Rightarrow> (pid_t \<Rightarrow> pid_t option) \<Rightarrow> pid_t \<Rightarrow> bool"
  for processes :: "kinfo_proc list" and parent :: "pid_t \<Rightarrow> pid_t option" where
  root: "p = 0 \<or> p = 1 \<Longrightarrow> reaches_end processes parent p"
| absent: "List.find (\<lambda>process. p = p_pid process) processes = None \<Longrightarrow> reaches_end processes parent p"
| unlinked: "parent p = None \<Longrightarrow> reaches_end processes parent p"
| link: "parent p = Some q \<Longrightarrow> reaches_end processes parent q \<Longrightarrow> reaches_end processes parent p"

code_pred reaches_end .

definition acyclic_links :: "kinfo_proc list \<Rightarrow> (pid_t \<Rightarrow> pid_t option) \<Rightarrow> bool" where
  "acyclic_links processes parent = (\<forall>p. reaches_end processes parent p)"

text \<open>
  The ancestry chain of the caller: the pid at depth \<open>d + 1\<close>, starting from the immediate
  parent at depth 1 and following the parent links the walk reads. The chain ends
  (\<open>None\<close>) where a parent link cannot be read.
\<close>

fun ancestor :: "(pid_t \<Rightarrow> kinfo_proc option) \<Rightarrow> pid_t \<Rightarrow> nat \<Rightarrow> pid_t option" where
  "ancestor proc_pid start 0 = Some start"
| "ancestor proc_pid start (Suc d) =
     (case ancestor proc_pid start d of
        None \<Rightarrow> None
      | Some p \<Rightarrow> map_option e_ppid (proc_pid p))"

text \<open>The name the snapshot gives a pid: that of the first entry with the pid.\<close>

definition snapshot_name :: "kinfo_proc list \<Rightarrow> pid_t \<Rightarrow> string option" where
  "snapshot_name processes p = map_option p_comm (List.find (\<lambda>process. p = p_pid process) processes)"

subsection \<open>Example runs\<close>

text \<open>
  A process table in which the helper (parent pid 5) was started by \<open>git-remote-https\<close>,
  that by \<open>git\<close>, that by a shell; a user who types \<open>alice\<close> and \<open>s3cret\<close>; a keychain
  that is empty at first. The per-hop answers of \<open>sysctl\<close> are those of the snapshot.
\<close>

definition snapshot0 :: "kinfo_proc list" where
  "snapshot0 =
     [\<lparr>p_pid = 1, p_comm = ''launchd'', e_ppid = 0\<rparr>,
      \<lparr>p_pid = 3, p_comm = ''zsh'', e_ppid = 1\<rparr>,
      \<lparr>p_pid = 7, p_comm = ''git'', e_ppid = 3\<rparr>,
      \<lparr>p_pid = 5, p_comm = ''git-remote-https'', e_ppid = 7\<rparr>]"

definition by_git :: platform where
  "by_git =
     \<lparr>argv = [''git-password'', ''Username: ''],
      getppid = 5,
      sysctl_proc_all = Processes snapshot0,
      sysctl_proc_pid = (\<lambda>p. List.find (\<lambda>process. p = p_pid process) snapshot0),
      git_origin_url = Inr ''https://example.com/org/repo.git'',
      getpass = (\<lambda>label. if label = ''Username: '' then Some ''alice''
                          else if label = ''Password: '' then Some ''s3cret'' else None),
      find_fault = 0, info_status = 0, copy_status = 0, create_fault = 0,
      SecCopyErrorMessageString = (\<lambda>status. if status = errSecDuplicateItem
                          then ''The specified item already exists in the keychain.''
                          else ''The keychain call failed.'')\<rparr>"

definition fresh :: state where
  "fresh = \<lparr>keychain = [], events = []\<rparr>"

text \<open>The same run asked for the password.\<close>

definition by_git_password :: platform where
  "by_git_password = by_git\<lparr>argv := [''git-password'', ''Password: '']\<rparr>"

text \<open>The same run with an argument that is no prompt of git's.\<close>

definition asked_email :: platform where
  "asked_email = by_git\<lparr>argv := [''git-password'', ''Email: '']\<rparr>"

text \<open>The helper started from the shell: no \<open>git\<close> among the ancestors.\<close>

definition from_shell :: platform where
  "from_shell = by_git\<lparr>getppid := 3\<rparr>"

text \<open>
  The same snapshot, but by the time of the first hop \<open>git\<close> has gone and the parent of
  pid 5 is read as pid 1.
\<close>

definition reparented :: platform where
  "reparented = by_git\<lparr>sysctl_proc_pid :=
     (\<lambda>p. if p = 5 then Some \<lparr>p_pid = 5, p_comm = ''git-remote-https'', e_ppid = 1\<rparr>
          else List.find (\<lambda>process. p = p_pid process) snapshot0)\<rparr>"

text \<open>The same snapshot, with per-hop answers that differ only for a pid outside it.\<close>

definition other_answers :: platform where
  "other_answers = by_git\<lparr>sysctl_proc_pid :=
     (\<lambda>p. if p = 99 then Some \<lparr>p_pid = 99, p_comm = ''git'', e_ppid = 1\<rparr>
          else List.find (\<lambda>process. p = p_pid process) snapshot0)\<rparr>"

text \<open>
  The helper started from the shell (pid 3), with a per-hop answer that names pid 3 as the
  parent of pid 3, as an answer buffer that the call leaves unchanged would.
\<close>

definition looping_hop :: platform where
  "looping_hop = by_git\<lparr>getppid := 3, sysctl_proc_pid :=
     (\<lambda>p. Some \<lparr>p_pid = 3, p_comm = ''zsh'', e_ppid = 3\<rparr>)\<rparr>"

text \<open>The helper started by \<open>git\<close> itself (pid 7), with a per-hop \<open>sysctl\<close> that fails.\<close>

definition hop_fails :: platform where
  "hop_fails = by_git\<lparr>getppid := 7, sysctl_proc_pid := (\<lambda>p. None)\<rparr>"

text \<open>The first use, with another process creating the same item during the prompts.\<close>

definition racing :: platform where
  "racing = by_git\<lparr>create_fault := errSecDuplicateItem\<rparr>"

text \<open>The first use with a keychain that cannot be searched.\<close>

definition locked :: platform where
  "locked = by_git\<lparr>find_fault := - 25308\<rparr>"

section \<open>The repository key\<close>

lemma strchr_first: "c \<notin> set xs \<Longrightarrow> strchr (xs @ c # ys) c = Some (length xs)"
  by (induction xs) auto

lemma len_https: "length ''https://'' = 8"
  by simp

lemma trim_repository_eq:
  "trim_repository r =
     (if 8 < length r then
        (case strchr (drop 8 r) CHR ''/'' of None \<Rightarrow> r | Some i \<Rightarrow> take (8 + i + 1) r)
      else r)"
  unfolding trim_repository_def len_https by (rule refl)

lemma trim_repository_prefix:
  assumes "8 \<le> length p" and "CHR ''/'' \<notin> set (drop 8 p)"
  shows "trim_repository (p @ CHR ''/'' # s) = p @ ''/''"
proof -
  have "drop 8 (p @ CHR ''/'' # s) = drop 8 p @ CHR ''/'' # s"
    using assms(1) by simp
  then have "strchr (drop 8 (p @ CHR ''/'' # s)) CHR ''/'' = Some (length p - 8)"
    using assms by (simp add: strchr_first)
  then show ?thesis
    using assms(1) by (simp add: trim_repository_eq)
qed

text \<open>
  Claim C7, as amended. \<open>trim_repository\<close> skips eight characters (the length of
  \<open>https://\<close>) whatever the scheme is. So two URLs get the same key when they agree up to
  and including a \<open>/\<close> that is the first one at or after the ninth character: the key is
  that common prefix. This covers any two \<open>https://\<close> URLs of one host. The key of
  \<open>https://example.com/org/repo.git\<close> is \<open>https://example.com/\<close>, and a URL no longer than
  \<open>https://\<close> is returned unchanged.
\<close>

theorem trim_repository_same_key:
  "(8 \<le> length p \<and> CHR ''/'' \<notin> set (drop 8 p) \<longrightarrow>
      trim_repository (p @ CHR ''/'' # s1) = p @ ''/'' \<and>
      trim_repository (p @ CHR ''/'' # s1) = trim_repository (p @ CHR ''/'' # s2))
   \<and> (CHR ''/'' \<notin> set host \<longrightarrow>
      trim_repository (''https://'' @ host @ CHR ''/'' # s1) = trim_repository (''https://'' @ host @ CHR ''/'' # s2))
   \<and> trim_repository ''https://example.com/org/repo.git'' = ''https://example.com/''
   \<and> (length u \<le> length ''https://'' \<longrightarrow> trim_repository u = u)"
proof -
  have a: "8 \<le> length p \<and> CHR ''/'' \<notin> set (drop 8 p) \<longrightarrow>
      trim_repository (p @ CHR ''/'' # s1) = p @ ''/'' \<and>
      trim_repository (p @ CHR ''/'' # s1) = trim_repository (p @ CHR ''/'' # s2)"
    by (simp add: trim_repository_prefix)
  have b: "CHR ''/'' \<notin> set host \<longrightarrow>
      trim_repository (''https://'' @ host @ CHR ''/'' # s1) = trim_repository (''https://'' @ host @ CHR ''/'' # s2)"
    using trim_repository_prefix [of "''https://'' @ host"] by simp
  have c: "trim_repository ''https://example.com/org/repo.git'' = ''https://example.com/''"
    by (simp add: trim_repository_eq)
  have d: "length u \<le> length ''https://'' \<longrightarrow> trim_repository u = u"
    by (simp add: trim_repository_eq)
  from a b c d show ?thesis by blast
qed

theorem trim_repository_same_key_witness:
  "trim_repository (''http://example.com'' @ CHR ''/'' # ''org/repo.git'') = ''http://example.com'' @ ''/''
   \<and> trim_repository (''http://example.com'' @ CHR ''/'' # ''org/repo.git'')
       = trim_repository (''http://example.com'' @ CHR ''/'' # ''other'')
   \<and> trim_repository (''https://'' @ ''github.com'' @ CHR ''/'' # ''org/repo.git'')
       = trim_repository (''https://'' @ ''github.com'' @ CHR ''/'' # ''other'')
   \<and> trim_repository ''ab'' = ''ab''"
proof -
  have h1: "8 \<le> length ''http://example.com'' \<and> CHR ''/'' \<notin> set (drop 8 ''http://example.com'')"
    by simp
  have h2: "CHR ''/'' \<notin> set ''github.com''"
    by simp
  have h3: "length ''ab'' \<le> length ''https://''"
    by simp
  show ?thesis
    using trim_repository_same_key
      [of "''http://example.com''" "''org/repo.git''" "''other''" "''github.com''" "''ab''"] h1 h2 h3
    by blast
qed

text \<open>
  Claim C7 as stated fails for a scheme and host shorter than eight characters together:
  \<open>ssh://h/a/x\<close> and \<open>ssh://h/b/y\<close> have the scheme \<open>ssh\<close> and the host \<open>h\<close> and differ only
  after the \<open>/\<close> that follows the host, but the \<open>/\<close> found is the next one, and the keys
  are \<open>ssh://h/a/\<close> and \<open>ssh://h/b/\<close>.
\<close>

theorem trim_repository_scheme_counterexample:
  "trim_repository (''ssh://'' @ ''h'' @ ''/'' @ ''a/x'') = ''ssh://h/a/''
   \<and> trim_repository (''ssh://'' @ ''h'' @ ''/'' @ ''b/y'') = ''ssh://h/b/''
   \<and> trim_repository (''ssh://'' @ ''h'' @ ''/'' @ ''a/x'') \<noteq> trim_repository (''ssh://'' @ ''h'' @ ''/'' @ ''b/y'')"
  by (simp add: trim_repository_eq)

section \<open>The caller trust verifier\<close>

subsection \<open>The walk and the parent links it follows\<close>

lemma walk_ends:
  assumes "reaches_end processes (hop_parent proc_pid) p"
  shows "\<exists>r. walk processes proc_pid p = Some r"
  using assms
proof (induction rule: reaches_end.induct)
  case (root p)
  then show ?case by (subst walk.simps) auto
next
  case (absent p)
  then show ?case by (subst walk.simps) auto
next
  case (unlinked p)
  then show ?case
    by (subst walk.simps) (auto simp: hop_parent_def split: option.splits)
next
  case (link p q)
  then show ?case
    by (subst walk.simps) (auto simp: hop_parent_def split: option.splits)
qed

lemma walk_self_parent:
  assumes "p \<noteq> 0" and "p \<noteq> 1"
    and "List.find (\<lambda>process. p = p_pid process) processes = Some process"
    and "p_comm process \<noteq> ''git''"
    and "proc_pid p = Some info" and "e_ppid info = p"
  shows "walk processes proc_pid p = None"
proof -
  have "False" if "walk processes proc_pid p = Some r" for r
    using that assms
  proof (induction rule: walk.raw_induct [rotated 1, consumes 1])
    case (1 walk' processes proc_pid p r)
    then show ?case by (auto split: if_splits option.splits)
  qed
  then show ?thesis by (cases "walk processes proc_pid p") auto
qed

lemma walk_agree_Some:
  assumes "walk processes a start = Some r"
    and "\<forall>process \<in> set processes. hop_parent a (p_pid process) = hop_parent b (p_pid process)"
  shows "walk processes b start = Some r"
  using assms
proof (induction rule: walk.raw_induct [rotated 1, consumes 1])
  case (1 walk' processes a start r)
  show ?case
  proof (cases "start \<noteq> 0 \<and> start \<noteq> 1")
    case False
    with 1(2) show ?thesis by (subst walk.simps) auto
  next
    case True
    show ?thesis
    proof (cases "List.find (\<lambda>process. start = p_pid process) processes")
      case None
      with True 1(2) show ?thesis by (subst walk.simps) auto
    next
      case (Some process)
      then have "process \<in> set processes" and "p_pid process = start"
        by (auto simp: find_Some_iff)
      with 1(3) have eq: "hop_parent a start = hop_parent b start" by auto
      show ?thesis
      proof (cases "a start")
        case None
        with eq have "b start = None" by (simp add: hop_parent_def)
        with None True Some 1(2) show ?thesis by (subst walk.simps) auto
      next
        case (Some info)
        with eq obtain info' where b: "b start = Some info'" and e: "e_ppid info' = e_ppid info"
          by (cases "b start") (auto simp: hop_parent_def)
        show ?thesis
        proof (cases "p_comm process = ''git''")
          case True
          with \<open>start \<noteq> 0 \<and> start \<noteq> 1\<close> \<open>List.find _ processes = Some process\<close> Some b 1(2)
          show ?thesis by (subst walk.simps) auto
        next
          case False
          with \<open>start \<noteq> 0 \<and> start \<noteq> 1\<close> \<open>List.find _ processes = Some process\<close> Some 1(2)
          have "walk' processes a (e_ppid info) = Some r" by auto
          then have "walk processes b (e_ppid info) = Some r"
            using 1(1) 1(3) by blast
          with False \<open>start \<noteq> 0 \<and> start \<noteq> 1\<close> \<open>List.find _ processes = Some process\<close> b e
          show ?thesis by (subst walk.simps) auto
        qed
      qed
    qed
  qed
qed


lemma walk_agree:
  assumes "\<forall>process \<in> set processes. hop_parent a (p_pid process) = hop_parent b (p_pid process)"
  shows "walk processes a start = walk processes b start"
proof (cases "walk processes a start")
  case None
  show ?thesis
  proof (cases "walk processes b start")
    case None
    with \<open>walk processes a start = None\<close> show ?thesis by simp
  next
    case (Some r)
    have "\<forall>process \<in> set processes. hop_parent b (p_pid process) = hop_parent a (p_pid process)"
      using assms by simp
    with Some have "walk processes a start = Some r"
      by (rule walk_agree_Some)
    with None show ?thesis by simp
  qed
next
  case (Some r)
  then have "walk processes b start = Some r"
    using assms by (rule walk_agree_Some)
  with Some show ?thesis by simp
qed

lemma ancestor_shift:
  "ancestor proc_pid start (Suc d) =
     (case proc_pid start of None \<Rightarrow> None | Some info \<Rightarrow> ancestor proc_pid (e_ppid info) d)"
  by (induction d) (auto split: option.splits)

subsection \<open>What the walk answers\<close>

lemma snapshot_name_find:
  "snapshot_name processes p = Some n \<longleftrightarrow>
     (\<exists>process. List.find (\<lambda>process. p = p_pid process) processes = Some process \<and> p_comm process = n)"
  by (auto simp: snapshot_name_def)

lemma snapshot_name_None:
  "snapshot_name processes p = None \<longleftrightarrow> List.find (\<lambda>process. p = p_pid process) processes = None"
  by (simp add: snapshot_name_def)

lemma walk_True_if:
  assumes "ancestor proc_pid start d = Some p"
    and "snapshot_name processes p = Some ''git''"
    and "proc_pid p \<noteq> None"
    and "\<forall>j\<le>d. \<forall>q. ancestor proc_pid start j = Some q \<longrightarrow>
           q \<noteq> 0 \<and> q \<noteq> 1 \<and> snapshot_name processes q \<noteq> None"
  shows "walk processes proc_pid start = Some (Inr True)"
  using assms
proof (induction d arbitrary: start)
  case 0
  then have "start = p" by simp
  moreover from 0(4) have "start \<noteq> 0 \<and> start \<noteq> 1" by simp
  moreover from 0(2) obtain process
    where "List.find (\<lambda>process. p = p_pid process) processes = Some process" "p_comm process = ''git''"
    by (auto simp: snapshot_name_find)
  moreover from 0(3) obtain info where "proc_pid p = Some info" by auto
  ultimately show ?case by (subst walk.simps) simp
next
  case (Suc d)
  have z: "(0::nat) \<le> Suc d" and a0: "ancestor proc_pid start 0 = Some start"
    by simp_all
  from Suc.prems(4) z a0 have s: "start \<noteq> 0 \<and> start \<noteq> 1" and n: "snapshot_name processes start \<noteq> None"
    by blast+
  from n obtain process where f: "List.find (\<lambda>process. start = p_pid process) processes = Some process"
    by (auto simp: snapshot_name_None)
  from Suc.prems(1) obtain info where i: "proc_pid start = Some info"
    and a: "ancestor proc_pid (e_ppid info) d = Some p"
    by (auto simp: ancestor_shift simp del: ancestor.simps split: option.splits)
  show ?case
  proof (cases "p_comm process = ''git''")
    case True
    with s f i show ?thesis by (subst walk.simps) simp
  next
    case False
    have "\<forall>j\<le>d. \<forall>q. ancestor proc_pid (e_ppid info) j = Some q \<longrightarrow>
            q \<noteq> 0 \<and> q \<noteq> 1 \<and> snapshot_name processes q \<noteq> None"
    proof (intro allI impI)
      fix j q
      assume "j \<le> d" and "ancestor proc_pid (e_ppid info) j = Some q"
      then have "Suc j \<le> Suc d" and "ancestor proc_pid start (Suc j) = Some q"
        using i by (simp_all add: ancestor_shift del: ancestor.simps)
      with Suc.prems(4) show "q \<noteq> 0 \<and> q \<noteq> 1 \<and> snapshot_name processes q \<noteq> None"
        by blast
    qed
    with Suc.IH a Suc.prems(2,3) have "walk processes proc_pid (e_ppid info) = Some (Inr True)"
      by blast
    with False s f i show ?thesis by (subst walk.simps) simp
  qed
qed

lemma walk_True_only_if:
  assumes "walk processes proc_pid start = Some r" and "r = Inr True"
  shows "\<exists>d p. ancestor proc_pid start d = Some p \<and> snapshot_name processes p = Some ''git''
           \<and> proc_pid p \<noteq> None
           \<and> (\<forall>j\<le>d. \<forall>q. ancestor proc_pid start j = Some q \<longrightarrow>
                 q \<noteq> 0 \<and> q \<noteq> 1 \<and> snapshot_name processes q \<noteq> None)"
  using assms
proof (induction rule: walk.raw_induct [rotated 1, consumes 1])
  case (1 walk' processes proc_pid start r)
  from 1(2,3) have s: "start \<noteq> 0 \<and> start \<noteq> 1"
    by (auto split: if_splits)
  with 1(2,3) obtain process where f: "List.find (\<lambda>process. start = p_pid process) processes = Some process"
    by (auto split: option.splits)
  with s 1(2,3) obtain info where i: "proc_pid start = Some info"
    by (auto split: option.splits)
  from f have n: "snapshot_name processes start = Some (p_comm process)"
    by (simp add: snapshot_name_def)
  show ?case
  proof (cases "p_comm process = ''git''")
    case True
    with s n i have "ancestor proc_pid start 0 = Some start \<and> snapshot_name processes start = Some ''git''
           \<and> proc_pid start \<noteq> None
           \<and> (\<forall>j\<le>0. \<forall>q. ancestor proc_pid start j = Some q \<longrightarrow>
                 q \<noteq> 0 \<and> q \<noteq> 1 \<and> snapshot_name processes q \<noteq> None)"
      by simp
    then show ?thesis by blast
  next
    case False
    with s f i 1(2) have "walk' processes proc_pid (e_ppid info) = Some r" by simp
    with 1(1,3) obtain d p where a: "ancestor proc_pid (e_ppid info) d = Some p"
      and g: "snapshot_name processes p = Some ''git''" and l: "proc_pid p \<noteq> None"
      and w: "\<forall>j\<le>d. \<forall>q. ancestor proc_pid (e_ppid info) j = Some q \<longrightarrow>
                 q \<noteq> 0 \<and> q \<noteq> 1 \<and> snapshot_name processes q \<noteq> None"
      by blast
    from a i have a': "ancestor proc_pid start (Suc d) = Some p"
      by (simp add: ancestor_shift del: ancestor.simps)
    have "\<forall>j\<le>Suc d. \<forall>q. ancestor proc_pid start j = Some q \<longrightarrow>
                 q \<noteq> 0 \<and> q \<noteq> 1 \<and> snapshot_name processes q \<noteq> None"
    proof (intro allI impI)
      fix j q
      assume j: "j \<le> Suc d" and q: "ancestor proc_pid start j = Some q"
      show "q \<noteq> 0 \<and> q \<noteq> 1 \<and> snapshot_name processes q \<noteq> None"
      proof (cases j)
        case 0
        with q s n show ?thesis by simp
      next
        case (Suc k)
        with j q i have "k \<le> d" and "ancestor proc_pid (e_ppid info) k = Some q"
          by (simp_all add: ancestor_shift del: ancestor.simps)
        with w show ?thesis by blast
      qed
    qed
    with a' g l show ?thesis by blast
  qed
qed

lemma walk_False_if:
  assumes "ancestor proc_pid start d = Some p"
    and "p = 0 \<or> p = 1 \<or> snapshot_name processes p = None"
    and "\<forall>j<d. \<forall>q. ancestor proc_pid start j = Some q \<longrightarrow>
           q \<noteq> 0 \<and> q \<noteq> 1 \<and> snapshot_name processes q \<noteq> None
           \<and> snapshot_name processes q \<noteq> Some ''git''"
  shows "walk processes proc_pid start = Some (Inr False)"
  using assms
proof (induction d arbitrary: start)
  case 0
  then have "start = 0 \<or> start = 1 \<or> List.find (\<lambda>process. start = p_pid process) processes = None"
    by (simp add: snapshot_name_None)
  then show ?case by (subst walk.simps) auto
next
  case (Suc d)
  have z: "(0::nat) < Suc d" and a0: "ancestor proc_pid start 0 = Some start"
    by simp_all
  from Suc.prems(3) z a0 have s: "start \<noteq> 0 \<and> start \<noteq> 1"
    and n: "snapshot_name processes start \<noteq> None"
    and g: "snapshot_name processes start \<noteq> Some ''git''"
    by blast+
  from n obtain process where f: "List.find (\<lambda>process. start = p_pid process) processes = Some process"
    by (auto simp: snapshot_name_None)
  with g have c: "p_comm process \<noteq> ''git''"
    by (simp add: snapshot_name_def)
  from Suc.prems(1) obtain info where i: "proc_pid start = Some info"
    and a: "ancestor proc_pid (e_ppid info) d = Some p"
    by (auto simp: ancestor_shift simp del: ancestor.simps split: option.splits)
  have "\<forall>j<d. \<forall>q. ancestor proc_pid (e_ppid info) j = Some q \<longrightarrow>
           q \<noteq> 0 \<and> q \<noteq> 1 \<and> snapshot_name processes q \<noteq> None
           \<and> snapshot_name processes q \<noteq> Some ''git''"
  proof (intro allI impI)
    fix j q
    assume "j < d" and "ancestor proc_pid (e_ppid info) j = Some q"
    then have "Suc j < Suc d" and "ancestor proc_pid start (Suc j) = Some q"
      using i by (simp_all add: ancestor_shift del: ancestor.simps)
    with Suc.prems(3)
    show "q \<noteq> 0 \<and> q \<noteq> 1 \<and> snapshot_name processes q \<noteq> None \<and> snapshot_name processes q \<noteq> Some ''git''"
      by blast
  qed
  with Suc.IH a Suc.prems(2) have "walk processes proc_pid (e_ppid info) = Some (Inr False)"
    by blast
  with c s f i show ?case by (subst walk.simps) simp
qed

lemma walk_False_only_if:
  assumes "walk processes proc_pid start = Some r" and "r = Inr False"
  shows "\<exists>d p. ancestor proc_pid start d = Some p
           \<and> (p = 0 \<or> p = 1 \<or> snapshot_name processes p = None)
           \<and> (\<forall>j<d. \<forall>q. ancestor proc_pid start j = Some q \<longrightarrow>
                 q \<noteq> 0 \<and> q \<noteq> 1 \<and> snapshot_name processes q \<noteq> None
                 \<and> snapshot_name processes q \<noteq> Some ''git'')"
  using assms
proof (induction rule: walk.raw_induct [rotated 1, consumes 1])
  case (1 walk' processes proc_pid start r)
  show ?case
  proof (cases "start = 0 \<or> start = 1 \<or> snapshot_name processes start = None")
    case True
    then have "ancestor proc_pid start 0 = Some start
           \<and> (start = 0 \<or> start = 1 \<or> snapshot_name processes start = None)
           \<and> (\<forall>j<0. \<forall>q. ancestor proc_pid start j = Some q \<longrightarrow>
                 q \<noteq> 0 \<and> q \<noteq> 1 \<and> snapshot_name processes q \<noteq> None
                 \<and> snapshot_name processes q \<noteq> Some ''git'')"
      by simp
    then show ?thesis by blast
  next
    case False
    then have s: "start \<noteq> 0 \<and> start \<noteq> 1" and n: "snapshot_name processes start \<noteq> None"
      by simp_all
    from n obtain process where f: "List.find (\<lambda>process. start = p_pid process) processes = Some process"
      by (auto simp: snapshot_name_None)
    with s 1(2,3) obtain info where i: "proc_pid start = Some info"
      by (auto split: option.splits)
    from s f i 1(2,3) have c: "p_comm process \<noteq> ''git''"
      by (auto split: if_splits)
    with f have g: "snapshot_name processes start \<noteq> Some ''git''"
      by (simp add: snapshot_name_def)
    from c s f i 1(2) have "walk' processes proc_pid (e_ppid info) = Some r" by simp
    with 1(1,3) obtain d p where a: "ancestor proc_pid (e_ppid info) d = Some p"
      and e: "p = 0 \<or> p = 1 \<or> snapshot_name processes p = None"
      and w: "\<forall>j<d. \<forall>q. ancestor proc_pid (e_ppid info) j = Some q \<longrightarrow>
                 q \<noteq> 0 \<and> q \<noteq> 1 \<and> snapshot_name processes q \<noteq> None
                 \<and> snapshot_name processes q \<noteq> Some ''git''"
      by blast
    from a i have a': "ancestor proc_pid start (Suc d) = Some p"
      by (simp add: ancestor_shift del: ancestor.simps)
    have "\<forall>j<Suc d. \<forall>q. ancestor proc_pid start j = Some q \<longrightarrow>
                 q \<noteq> 0 \<and> q \<noteq> 1 \<and> snapshot_name processes q \<noteq> None
                 \<and> snapshot_name processes q \<noteq> Some ''git''"
    proof (intro allI impI)
      fix j q
      assume j: "j < Suc d" and q: "ancestor proc_pid start j = Some q"
      show "q \<noteq> 0 \<and> q \<noteq> 1 \<and> snapshot_name processes q \<noteq> None \<and> snapshot_name processes q \<noteq> Some ''git''"
      proof (cases j)
        case 0
        with q s n g show ?thesis by simp
      next
        case (Suc k)
        with j q i have "k < d" and "ancestor proc_pid (e_ppid info) k = Some q"
          by (simp_all add: ancestor_shift del: ancestor.simps)
        with w show ?thesis by blast
      qed
    qed
    with a' e show ?thesis by blast
  qed
qed

lemma walk_answer:
  "(walk processes proc_pid start = Some (Inr True)) =
     (\<exists>d p. ancestor proc_pid start d = Some p \<and> snapshot_name processes p = Some ''git''
        \<and> proc_pid p \<noteq> None
        \<and> (\<forall>j\<le>d. \<forall>q. ancestor proc_pid start j = Some q \<longrightarrow>
              q \<noteq> 0 \<and> q \<noteq> 1 \<and> snapshot_name processes q \<noteq> None))
   \<and> (walk processes proc_pid start = Some (Inr False)) =
     (\<exists>d p. ancestor proc_pid start d = Some p
        \<and> (p = 0 \<or> p = 1 \<or> snapshot_name processes p = None)
        \<and> (\<forall>j<d. \<forall>q. ancestor proc_pid start j = Some q \<longrightarrow>
              q \<noteq> 0 \<and> q \<noteq> 1 \<and> snapshot_name processes q \<noteq> None
              \<and> snapshot_name processes q \<noteq> Some ''git''))"
proof (intro conjI iffI)
  assume "walk processes proc_pid start = Some (Inr True)"
  then show "\<exists>d p. ancestor proc_pid start d = Some p \<and> snapshot_name processes p = Some ''git''
        \<and> proc_pid p \<noteq> None
        \<and> (\<forall>j\<le>d. \<forall>q. ancestor proc_pid start j = Some q \<longrightarrow>
              q \<noteq> 0 \<and> q \<noteq> 1 \<and> snapshot_name processes q \<noteq> None)"
    by (rule walk_True_only_if) simp
next
  assume "\<exists>d p. ancestor proc_pid start d = Some p \<and> snapshot_name processes p = Some ''git''
        \<and> proc_pid p \<noteq> None
        \<and> (\<forall>j\<le>d. \<forall>q. ancestor proc_pid start j = Some q \<longrightarrow>
              q \<noteq> 0 \<and> q \<noteq> 1 \<and> snapshot_name processes q \<noteq> None)"
  then show "walk processes proc_pid start = Some (Inr True)"
    using walk_True_if by blast
next
  assume "walk processes proc_pid start = Some (Inr False)"
  then show "\<exists>d p. ancestor proc_pid start d = Some p
        \<and> (p = 0 \<or> p = 1 \<or> snapshot_name processes p = None)
        \<and> (\<forall>j<d. \<forall>q. ancestor proc_pid start j = Some q \<longrightarrow>
              q \<noteq> 0 \<and> q \<noteq> 1 \<and> snapshot_name processes q \<noteq> None
              \<and> snapshot_name processes q \<noteq> Some ''git'')"
    by (rule walk_False_only_if) simp
next
  assume "\<exists>d p. ancestor proc_pid start d = Some p
        \<and> (p = 0 \<or> p = 1 \<or> snapshot_name processes p = None)
        \<and> (\<forall>j<d. \<forall>q. ancestor proc_pid start j = Some q \<longrightarrow>
              q \<noteq> 0 \<and> q \<noteq> 1 \<and> snapshot_name processes q \<noteq> None
              \<and> snapshot_name processes q \<noteq> Some ''git'')"
  then show "walk processes proc_pid start = Some (Inr False)"
    using walk_False_if by blast
qed

subsection \<open>Termination\<close>

lemma print_result_no_hang: "fst r \<noteq> Inl Hang \<Longrightarrow> fst (print_result r) \<noteq> Hang"
  by (cases r) (auto simp: print_result_def split: sum.splits option.splits)

lemma security_eq:
  "security env status s =
     (if status \<noteq> 0 then (Inl (Fatal (SecCopyErrorMessageString env status)), s) else (Inr (), s))"
  by (simp add: security_def security_fatal_def fatal_def)

lemma find_keychain_item_no_hang: "fst (find_keychain_item env repository b s) \<noteq> Inl Hang"
  by (simp add: find_keychain_item_def security_eq Let_def split: prod.splits option.splits)

lemma prompt_no_hang: "fst (prompt env label s) \<noteq> Inl Hang"
  by (simp add: prompt_def split: option.splits)

lemma create_keychain_item_no_hang: "fst (create_keychain_item env repository user pass s) \<noteq> Inl Hang"
  by (simp add: create_keychain_item_def security_eq split: prod.splits)

lemma no_hang_pair: "fst r \<noteq> Inl Hang \<Longrightarrow> r = (Inl stop, s') \<Longrightarrow> stop \<noteq> Hang"
  by auto

lemma get_username_no_hang: "fst (get_username env s) \<noteq> Inl Hang"
  unfolding get_username_def Let_def fatal_def
  by (auto split: sum.splits prod.splits option.splits
      dest: no_hang_pair [OF find_keychain_item_no_hang] no_hang_pair [OF prompt_no_hang]
        no_hang_pair [OF create_keychain_item_no_hang])

lemma get_password_no_hang: "fst (get_password env s) \<noteq> Inl Hang"
  unfolding get_password_def Let_def fatal_def
  by (auto split: sum.splits prod.splits option.splits
      dest: no_hang_pair [OF find_keychain_item_no_hang] no_hang_pair [OF prompt_no_hang]
        no_hang_pair [OF create_keychain_item_no_hang])

lemma main_hangs_iff: "fst (main env s) = Hang \<longleftrightarrow> is_git_calling_us env = None"
proof (cases "is_git_calling_us env")
  case None
  then show ?thesis by (simp add: main_def)
next
  case (Some r)
  show ?thesis
  proof (cases r)
    case (Inl message)
    with Some show ?thesis by (simp add: main_def)
  next
    case (Inr calling)
    with Some show ?thesis
      using print_result_no_hang [OF get_username_no_hang, of env "emit Verify s"]
        print_result_no_hang [OF get_password_no_hang, of env "emit Verify s"]
      by (simp add: main_def Let_def)
  qed
qed

text \<open>
  Claim C10, as amended. The walk takes the next pid from the answer of the per-hop
  \<open>sysctl\<close>, not from the snapshot. If these per-hop parent links are acyclic over the
  snapshot (following them from any pid comes to pid 0, to pid 1, to a pid that is not in
  the snapshot, or to a pid whose link cannot be read), then \<open>is_git_calling_us\<close> ends,
  with an answer or in \<open>fatal\<close>, and the run does not hang.
\<close>

theorem ancestry_walk_terminates:
  assumes "sysctl_proc_all env = Processes processes"
    and "acyclic_links processes (hop_parent (sysctl_proc_pid env))"
  shows "(\<exists>r. is_git_calling_us env = Some r) \<and> fst (main env s) \<noteq> Hang"
proof -
  from assms(2) have "reaches_end processes (hop_parent (sysctl_proc_pid env)) (getppid env)"
    by (simp add: acyclic_links_def)
  then obtain r where "walk processes (sysctl_proc_pid env) (getppid env) = Some r"
    using walk_ends by blast
  with assms(1) have "is_git_calling_us env = Some r"
    by (simp add: is_git_calling_us_def)
  then show ?thesis by (simp add: main_hangs_iff)
qed

lemma find_snapshot0:
  "List.find (\<lambda>process. p = p_pid process) snapshot0 =
     (if p = 1 then Some \<lparr>p_pid = 1, p_comm = ''launchd'', e_ppid = 0\<rparr>
      else if p = 3 then Some \<lparr>p_pid = 3, p_comm = ''zsh'', e_ppid = 1\<rparr>
      else if p = 7 then Some \<lparr>p_pid = 7, p_comm = ''git'', e_ppid = 3\<rparr>
      else if p = 5 then Some \<lparr>p_pid = 5, p_comm = ''git-remote-https'', e_ppid = 7\<rparr>
      else None)"
  by (simp add: snapshot0_def)

lemma snapshot0_acyclic:
  "acyclic_links snapshot0 (hop_parent (\<lambda>p. List.find (\<lambda>process. p = p_pid process) snapshot0))"
    (is "acyclic_links _ ?parent")
proof -
  have p3: "?parent 3 = Some 1" and p7: "?parent 7 = Some 3" and p5: "?parent 5 = Some 7"
    using find_snapshot0 [of 3] find_snapshot0 [of 7] find_snapshot0 [of 5]
    by (simp_all add: hop_parent_def)
  have r1: "reaches_end snapshot0 ?parent 1"
    by (rule reaches_end.root) simp
  have r3: "reaches_end snapshot0 ?parent 3"
    using p3 r1 by (rule reaches_end.link)
  have r7: "reaches_end snapshot0 ?parent 7"
    using p7 r3 by (rule reaches_end.link)
  have r5: "reaches_end snapshot0 ?parent 5"
    using p5 r7 by (rule reaches_end.link)
  have "reaches_end snapshot0 ?parent p" for p
  proof (cases "p = 1 \<or> p = 3 \<or> p = 7 \<or> p = 5")
    case True
    with r1 r3 r7 r5 show ?thesis by auto
  next
    case False
    then have "List.find (\<lambda>process. p = p_pid process) snapshot0 = None"
      by (simp add: find_snapshot0)
    then show ?thesis by (rule reaches_end.absent)
  qed
  then show ?thesis by (simp add: acyclic_links_def)
qed

text \<open>
  The example process table satisfies the hypothesis of C10 as amended.
\<close>

theorem ancestry_walk_terminates_witness:
  "sysctl_proc_all by_git = Processes snapshot0
   \<and> acyclic_links snapshot0 (hop_parent (sysctl_proc_pid by_git))
   \<and> (\<exists>r. is_git_calling_us by_git = Some r) \<and> fst (main by_git fresh) \<noteq> Hang"
proof -
  have a: "sysctl_proc_all by_git = Processes snapshot0"
    by (simp add: by_git_def)
  have b: "acyclic_links snapshot0 (hop_parent (sysctl_proc_pid by_git))"
    using snapshot0_acyclic by (simp add: by_git_def)
  from a b ancestry_walk_terminates [OF a b, of fresh] show ?thesis by blast
qed

lemma snapshot0_own_links_acyclic: "acyclic_links snapshot0 (snapshot_parent snapshot0)"
proof -
  have "snapshot_parent snapshot0 = hop_parent (\<lambda>p. List.find (\<lambda>process. p = p_pid process) snapshot0)"
    by (rule ext) (simp add: snapshot_parent_def hop_parent_def)
  then show ?thesis using snapshot0_acyclic by simp
qed

text \<open>
  Claim C10 as stated fails: the parent links recorded in the snapshot are acyclic, the
  per-hop answer for pid 3 names pid 3 as its parent, and the walk never ends.
\<close>

theorem acyclic_snapshot_counterexample:
  "sysctl_proc_all looping_hop = Processes snapshot0
   \<and> acyclic_links snapshot0 (snapshot_parent snapshot0)
   \<and> is_git_calling_us looping_hop = None
   \<and> fst (main looping_hop fresh) = Hang"
proof -
  have a: "sysctl_proc_all looping_hop = Processes snapshot0"
    by (simp add: looping_hop_def by_git_def)
  have f: "List.find (\<lambda>process. 3 = p_pid process) snapshot0 = Some \<lparr>p_pid = 3, p_comm = ''zsh'', e_ppid = 1\<rparr>"
    using find_snapshot0 [of 3] by simp
  have i: "sysctl_proc_pid looping_hop 3 = Some \<lparr>p_pid = 3, p_comm = ''zsh'', e_ppid = 3\<rparr>"
    by (simp add: looping_hop_def)
  have "walk snapshot0 (sysctl_proc_pid looping_hop) 3 = None"
    using f i by (intro walk_self_parent [of 3 snapshot0 "\<lparr>p_pid = 3, p_comm = ''zsh'', e_ppid = 1\<rparr>"
          "sysctl_proc_pid looping_hop" "\<lparr>p_pid = 3, p_comm = ''zsh'', e_ppid = 3\<rparr>"]) simp_all
  then have b: "is_git_calling_us looping_hop = None"
    by (simp add: is_git_calling_us_def looping_hop_def by_git_def)
  from a b snapshot0_own_links_acyclic show ?thesis
    by (simp add: main_hangs_iff)
qed

subsection \<open>What the answer depends on\<close>

text \<open>
  Claim C4, as amended. The verifier reads the process table at every hop. Its result is
  determined by the parent pid, the snapshot, and the parent pids that the per-hop reads
  give for the pids of the snapshot: two runs that agree on these get the same result
  (the same answer, the same \<open>fatal\<close>, or both never end), whatever else the per-hop reads
  give.
\<close>

theorem verifier_reads:
  assumes "getppid env1 = getppid env2"
    and "sysctl_proc_all env1 = sysctl_proc_all env2"
    and "\<forall>processes. sysctl_proc_all env1 = Processes processes \<longrightarrow>
           (\<forall>process \<in> set processes.
              hop_parent (sysctl_proc_pid env1) (p_pid process)
                = hop_parent (sysctl_proc_pid env2) (p_pid process))"
  shows "is_git_calling_us env1 = is_git_calling_us env2"
proof (cases "sysctl_proc_all env1")
  case (Processes processes)
  with assms(3) have "\<forall>process \<in> set processes.
      hop_parent (sysctl_proc_pid env1) (p_pid process) = hop_parent (sysctl_proc_pid env2) (p_pid process)"
    by blast
  then have "walk processes (sysctl_proc_pid env1) (getppid env1)
      = walk processes (sysctl_proc_pid env2) (getppid env1)"
    by (rule walk_agree)
  with Processes assms(1,2) show ?thesis
    by (simp add: is_git_calling_us_def)
qed (use assms(2) in \<open>simp_all add: is_git_calling_us_def\<close>)

lemma is_git_calling_us_by_git: "is_git_calling_us by_git = Some (Inr True)"
  by (simp add: is_git_calling_us_def by_git_def snapshot0_def walk.simps)

text \<open>
  Two runs that differ in a per-hop answer for a pid outside the snapshot.
\<close>

theorem verifier_reads_witness:
  "getppid by_git = getppid other_answers
   \<and> sysctl_proc_all by_git = sysctl_proc_all other_answers
   \<and> sysctl_proc_pid by_git 99 \<noteq> sysctl_proc_pid other_answers 99
   \<and> is_git_calling_us by_git = is_git_calling_us other_answers"
proof -
  have a: "getppid by_git = getppid other_answers"
    and b: "sysctl_proc_all by_git = sysctl_proc_all other_answers"
    and c: "sysctl_proc_pid by_git 99 \<noteq> sysctl_proc_pid other_answers 99"
    by (simp_all add: other_answers_def by_git_def snapshot0_def)
  have d: "\<forall>processes. sysctl_proc_all by_git = Processes processes \<longrightarrow>
           (\<forall>process \<in> set processes.
              hop_parent (sysctl_proc_pid by_git) (p_pid process)
                = hop_parent (sysctl_proc_pid other_answers) (p_pid process))"
    by (simp add: other_answers_def by_git_def snapshot0_def hop_parent_def)
  from a b c verifier_reads [OF a b d] show ?thesis by simp
qed

text \<open>
  Claim C4 as stated fails: two runs with the same parent pid and the same snapshot, whose
  per-hop reads differ for pid 5, get different answers.
\<close>

theorem snapshot_only_counterexample:
  "getppid by_git = getppid reparented
   \<and> sysctl_proc_all by_git = sysctl_proc_all reparented
   \<and> is_git_calling_us by_git = Some (Inr True)
   \<and> is_git_calling_us reparented = Some (Inr False)"
  by (simp add: is_git_calling_us_def reparented_def by_git_def snapshot0_def walk.simps)

text \<open>
  Claim C5, as amended. The ancestry chain starts at the immediate parent (depth 1, index
  0 of \<open>ancestor\<close>) and follows the parent pids read at each hop. The verifier returns
  true exactly when some pid of the chain has the name \<open>git\<close> in the snapshot, the per-hop
  read of that pid succeeds, and every pid of the chain up to it is neither 0 nor 1 and is
  in the snapshot. It returns false exactly when the chain comes to pid 0, to pid 1 or to
  a pid that is not in the snapshot, past pids that are in the snapshot under another name
  than \<open>git\<close>.
\<close>

theorem verifier_answer:
  assumes "sysctl_proc_all env = Processes processes"
  shows
  "(is_git_calling_us env = Some (Inr True)) =
     (\<exists>d p. ancestor (sysctl_proc_pid env) (getppid env) d = Some p
        \<and> snapshot_name processes p = Some ''git''
        \<and> sysctl_proc_pid env p \<noteq> None
        \<and> (\<forall>j\<le>d. \<forall>q. ancestor (sysctl_proc_pid env) (getppid env) j = Some q \<longrightarrow>
              q \<noteq> 0 \<and> q \<noteq> 1 \<and> snapshot_name processes q \<noteq> None))
   \<and> (is_git_calling_us env = Some (Inr False)) =
     (\<exists>d p. ancestor (sysctl_proc_pid env) (getppid env) d = Some p
        \<and> (p = 0 \<or> p = 1 \<or> snapshot_name processes p = None)
        \<and> (\<forall>j<d. \<forall>q. ancestor (sysctl_proc_pid env) (getppid env) j = Some q \<longrightarrow>
              q \<noteq> 0 \<and> q \<noteq> 1 \<and> snapshot_name processes q \<noteq> None
              \<and> snapshot_name processes q \<noteq> Some ''git''))"
proof -
  have "is_git_calling_us env = walk processes (sysctl_proc_pid env) (getppid env)"
    using assms by (simp add: is_git_calling_us_def)
  then show ?thesis
    using walk_answer [of processes "sysctl_proc_pid env" "getppid env"] by simp
qed

text \<open>
  Both directions at the example process table: called below \<open>git\<close>, and called from the
  shell.
\<close>

theorem verifier_answer_witness:
  "sysctl_proc_all by_git = Processes snapshot0
   \<and> is_git_calling_us by_git = Some (Inr True)
   \<and> sysctl_proc_all from_shell = Processes snapshot0
   \<and> is_git_calling_us from_shell = Some (Inr False)"
proof -
  have a: "sysctl_proc_all by_git = Processes snapshot0"
    and b: "sysctl_proc_all from_shell = Processes snapshot0"
    by (simp_all add: by_git_def from_shell_def)
  have n5: "snapshot_name snapshot0 5 = Some ''git-remote-https''"
    and n7: "snapshot_name snapshot0 7 = Some ''git''"
    and n3: "snapshot_name snapshot0 3 = Some ''zsh''"
    by (simp_all add: snapshot_name_def snapshot0_def)
  have l: "sysctl_proc_pid by_git = (\<lambda>p. List.find (\<lambda>process. p = p_pid process) snapshot0)"
    "sysctl_proc_pid from_shell = (\<lambda>p. List.find (\<lambda>process. p = p_pid process) snapshot0)"
    "getppid by_git = 5" "getppid from_shell = 3"
    by (simp_all add: by_git_def from_shell_def)
  have a0: "ancestor (sysctl_proc_pid by_git) (getppid by_git) 0 = Some 5"
    and a1: "ancestor (sysctl_proc_pid by_git) (getppid by_git) (Suc 0) = Some 7"
    and s0: "ancestor (sysctl_proc_pid from_shell) (getppid from_shell) 0 = Some 3"
    and s1: "ancestor (sysctl_proc_pid from_shell) (getppid from_shell) (Suc 0) = Some 1"
    by (simp_all add: l snapshot0_def)
  have r7: "sysctl_proc_pid by_git 7 \<noteq> None"
    by (simp add: l snapshot0_def)
  have w: "\<forall>j\<le>Suc 0. \<forall>q. ancestor (sysctl_proc_pid by_git) (getppid by_git) j = Some q \<longrightarrow>
              q \<noteq> 0 \<and> q \<noteq> 1 \<and> snapshot_name snapshot0 q \<noteq> None"
    using a0 a1 n5 n7 by (auto simp: le_Suc_eq)
  have v: "\<forall>j<Suc 0. \<forall>q. ancestor (sysctl_proc_pid from_shell) (getppid from_shell) j = Some q \<longrightarrow>
              q \<noteq> 0 \<and> q \<noteq> 1 \<and> snapshot_name snapshot0 q \<noteq> None
              \<and> snapshot_name snapshot0 q \<noteq> Some ''git''"
    using s0 n3 by auto
  have t: "is_git_calling_us by_git = Some (Inr True)"
    using verifier_answer [OF a] a1 n7 r7 w by blast
  have f: "is_git_calling_us from_shell = Some (Inr False)"
    using verifier_answer [OF b] s1 v by blast
  from a b t f show ?thesis by simp
qed

text \<open>
  Claim C5 as stated fails: the immediate parent is \<open>git\<close>, but the per-hop \<open>sysctl\<close>
  for it fails, and the verifier ends in \<open>fatal\<close> before it compares the name.
\<close>

theorem failed_hop_counterexample:
  "sysctl_proc_all hop_fails = Processes snapshot0
   \<and> ancestor (sysctl_proc_pid hop_fails) (getppid hop_fails) 0 = Some 7
   \<and> snapshot_name snapshot0 7 = Some ''git''
   \<and> is_git_calling_us hop_fails = Some (Inl ''sysctl PROC_PID failed'')
   \<and> is_git_calling_us hop_fails \<noteq> Some (Inr True)
   \<and> fst (main hop_fails fresh) = Fatal ''sysctl PROC_PID failed''"
  by (simp add: is_git_calling_us_def main_def hop_fails_def by_git_def snapshot0_def
      snapshot_name_def walk.simps)

section \<open>The resolver and the order of the calls\<close>

subsection \<open>What each step returns and leaves\<close>

lemma emit_fields [simp]:
  "keychain (emit e s) = keychain s"
  "events (emit e s) = events s @ [e]"
  by (simp_all add: emit_def)

lemma find_emit [simp]:
  "SecKeychainFindGenericPassword env (emit e s) service = SecKeychainFindGenericPassword env s service"
  by (simp add: SecKeychainFindGenericPassword_def)

lemma find_status_cases:
  "(\<exists>item. SecKeychainFindGenericPassword env s service = (errSecSuccess, Some item))
   \<or> (\<exists>status. status \<noteq> errSecSuccess
         \<and> SecKeychainFindGenericPassword env s service = (status, None))"
  by (simp add: SecKeychainFindGenericPassword_def errSecSuccess_def errSecItemNotFound_def
      split: option.splits)

lemma create_emit:
  "SecKeychainItemCreateFromContent env (emit e s) attributes data =
     (fst (SecKeychainItemCreateFromContent env s attributes data),
      emit e (snd (SecKeychainItemCreateFromContent env s attributes data)))"
  by (simp add: SecKeychainItemCreateFromContent_def emit_def)

lemma create_state:
  "snd (SecKeychainItemCreateFromContent env s attributes data) =
     (if fst (SecKeychainItemCreateFromContent env s attributes data) = 0
      then s\<lparr>keychain := keychain s @ [\<lparr>attr = attributes, secret = data\<rparr>]\<rparr> else s)"
  by (simp add: SecKeychainItemCreateFromContent_def errSecDuplicateItem_def errSecSuccess_def)

lemma find_keychain_item_eq:
  "find_keychain_item env repository include_password s =
     (case SecKeychainFindGenericPassword env s repository of
        (status, found) \<Rightarrow>
          if status = errSecSuccess then
            (case found of
               None \<Rightarrow> (Inl Undefined_behaviour, emit (SecFind repository) s)
             | Some item \<Rightarrow>
                 if info_status env \<noteq> 0
                 then (Inl (Fatal (SecCopyErrorMessageString env (info_status env))),
                       emit (SecFind repository) s)
                 else if copy_status env \<noteq> 0
                 then (Inl (Fatal (SecCopyErrorMessageString env (copy_status env))),
                       emit (SecCopy include_password) (emit (SecFind repository) s))
                 else (Inr (Some \<lparr>username = attributes_loop (attr item) None,
                                   password = (if include_password then Some (secret item) else None)\<rparr>),
                       emit (SecCopy include_password) (emit (SecFind repository) s)))
          else if status = errSecItemNotFound then (Inr None, emit (SecFind repository) s)
          else (Inl (Fatal (SecCopyErrorMessageString env status)), emit (SecFind repository) s))"
  by (simp add: find_keychain_item_def security_eq Let_def errSecSuccess_def
      split: prod.splits option.splits)

lemma create_keychain_item_eq:
  "create_keychain_item env repository user pass s =
     (let status = fst (SecKeychainItemCreateFromContent env s (keychain_attributes repository user) pass)
      in if status \<noteq> 0
         then (Inl (Fatal (SecCopyErrorMessageString env status)), emit (SecCreate repository user pass) s)
         else (Inr (), emit (SecCreate repository user pass)
                 (s\<lparr>keychain := keychain s @ [\<lparr>attr = keychain_attributes repository user, secret = pass\<rparr>]\<rparr>)))"
  by (simp add: create_keychain_item_def create_emit create_state security_eq Let_def)

lemma prompt_eq:
  "prompt env label s =
     (case getpass env label of
        None \<Rightarrow> (Inl Undefined_behaviour, emit (Getpass label) s)
      | Some temp \<Rightarrow> (Inr temp, emit (Getpass label) s))"
  by (simp add: prompt_def)

text \<open>The calls a function adds are appended to those made before.\<close>

lemma find_keychain_item_events:
  "\<exists>es. events (snd (find_keychain_item env repository b s)) = events s @ es"
  by (simp add: find_keychain_item_eq split: prod.splits option.splits)

lemma prompt_events: "\<exists>es. events (snd (prompt env label s)) = events s @ es"
  by (simp add: prompt_eq split: option.splits)

lemma create_keychain_item_events:
  "\<exists>es. events (snd (create_keychain_item env repository user pass s)) = events s @ es"
  by (simp add: create_keychain_item_eq Let_def)

lemma events_step:
  assumes "\<exists>es. events (snd (f s)) = events s @ es" and "f s = (r, s')"
  shows "\<exists>es. events s' = events s @ es"
  using assms by simp

lemma get_username_events: "\<exists>es. events (snd (get_username env s)) = events s @ es"
proof (cases "git_origin_url env")
  case (Inl message)
  then show ?thesis by (simp add: get_username_def fatal_def)
next
  case (Inr url)
  obtain r1 s1 where f: "find_keychain_item env (trim_repository url) False (emit Git_config s) = (r1, s1)"
    by (cases "find_keychain_item env (trim_repository url) False (emit Git_config s)")
  with find_keychain_item_events [of env "trim_repository url" False "emit Git_config s"]
  obtain e1 where e1: "events s1 = events s @ e1" by auto
  obtain r2 s2 where p1: "prompt env ''Username: '' s1 = (r2, s2)"
    by (cases "prompt env ''Username: '' s1")
  with prompt_events [of env "''Username: ''" s1] e1
  obtain e2 where e2: "events s2 = events s @ e2" by auto
  obtain r3 s3 where p2: "prompt env ''Password: '' s2 = (r3, s3)"
    by (cases "prompt env ''Password: '' s2")
  with prompt_events [of env "''Password: ''" s2] e2
  obtain e3 where e3: "events s3 = events s @ e3" by auto
  have e4: "\<exists>es. events s4 = events s @ es"
    if "create_keychain_item env repository user pass s3 = (r4, s4)" for repository user pass r4 s4
    using create_keychain_item_events [of env repository user pass s3] e3 that by auto
  show ?thesis
    using Inr f p1 p2 e1 e2 e3 e4
    by (auto simp: get_username_def Let_def split: sum.splits option.splits prod.splits)
qed

lemma get_password_events: "\<exists>es. events (snd (get_password env s)) = events s @ es"
proof (cases "git_origin_url env")
  case (Inl message)
  then show ?thesis by (simp add: get_password_def fatal_def)
next
  case (Inr url)
  obtain r1 s1 where f: "find_keychain_item env (trim_repository url) True (emit Git_config s) = (r1, s1)"
    by (cases "find_keychain_item env (trim_repository url) True (emit Git_config s)")
  with find_keychain_item_events [of env "trim_repository url" True "emit Git_config s"]
  obtain e1 where e1: "events s1 = events s @ e1" by auto
  obtain r3 s3 where p2: "prompt env ''Password: '' s1 = (r3, s3)"
    by (cases "prompt env ''Password: '' s1")
  with prompt_events [of env "''Password: ''" s1] e1
  obtain e3 where e3: "events s3 = events s @ e3" by auto
  have e4: "\<exists>es. events s4 = events s @ es"
    if "create_keychain_item env repository user pass s3 = (r4, s4)" for repository user pass r4 s4
    using create_keychain_item_events [of env repository user pass s3] e3 that by auto
  show ?thesis
    using Inr f p2 e1 e3 e4
    by (auto simp: get_password_def Let_def split: sum.splits option.splits prod.splits)
qed

lemma print_result_snd [simp]: "snd (print_result r) = snd r"
  by (cases r) (auto simp: print_result_def split: sum.splits option.splits)

lemma create_status_emit [simp]:
  "fst (SecKeychainItemCreateFromContent env (emit e s) attributes data)
     = fst (SecKeychainItemCreateFromContent env s attributes data)"
  by (simp add: create_emit)

lemma emit_emit: "emit e (s\<lparr>events := es\<rparr>) = s\<lparr>events := es @ [e]\<rparr>"
  by (simp add: emit_def)

lemma emit_first: "emit e s = s\<lparr>events := events s @ [e]\<rparr>"
  by (simp add: emit_def)

lemma create_status_events [simp]:
  "fst (SecKeychainItemCreateFromContent env (s\<lparr>events := es\<rparr>) attributes data)
     = fst (SecKeychainItemCreateFromContent env s attributes data)"
  by (simp add: SecKeychainItemCreateFromContent_def)

lemma find_events [simp]:
  "SecKeychainFindGenericPassword env (s\<lparr>events := es\<rparr>) service
     = SecKeychainFindGenericPassword env s service"
  by (simp add: SecKeychainFindGenericPassword_def)

text \<open>The resolvers, by what the lookup gives.\<close>

lemma get_username_fault:
  assumes "git_origin_url env = Inr url"
    and "SecKeychainFindGenericPassword env s (trim_repository url) = (status, found)"
    and "status \<noteq> errSecSuccess" and "status \<noteq> errSecItemNotFound"
  shows "get_username env s =
     (Inl (Fatal (SecCopyErrorMessageString env status)),
      s\<lparr>events := events s @ [Git_config, SecFind (trim_repository url)]\<rparr>)"
  using assms by (simp add: get_username_def find_keychain_item_eq emit_first)

lemma get_password_fault:
  assumes "git_origin_url env = Inr url"
    and "SecKeychainFindGenericPassword env s (trim_repository url) = (status, found)"
    and "status \<noteq> errSecSuccess" and "status \<noteq> errSecItemNotFound"
  shows "get_password env s =
     (Inl (Fatal (SecCopyErrorMessageString env status)),
      s\<lparr>events := events s @ [Git_config, SecFind (trim_repository url)]\<rparr>)"
  using assms by (simp add: get_password_def find_keychain_item_eq emit_first)

lemma get_username_hit:
  assumes "git_origin_url env = Inr url"
    and "SecKeychainFindGenericPassword env s (trim_repository url) = (errSecSuccess, Some item)"
  shows "get_username env s =
     (if info_status env \<noteq> 0
      then (Inl (Fatal (SecCopyErrorMessageString env (info_status env))),
            s\<lparr>events := events s @ [Git_config, SecFind (trim_repository url)]\<rparr>)
      else if copy_status env \<noteq> 0
      then (Inl (Fatal (SecCopyErrorMessageString env (copy_status env))),
            s\<lparr>events := events s @ [Git_config, SecFind (trim_repository url), SecCopy False]\<rparr>)
      else (Inr (attributes_loop (attr item) None),
            s\<lparr>events := events s @ [Git_config, SecFind (trim_repository url), SecCopy False]\<rparr>))"
  using assms by (simp add: get_username_def find_keychain_item_eq emit_first)

lemma get_password_hit:
  assumes "git_origin_url env = Inr url"
    and "SecKeychainFindGenericPassword env s (trim_repository url) = (errSecSuccess, Some item)"
  shows "get_password env s =
     (if info_status env \<noteq> 0
      then (Inl (Fatal (SecCopyErrorMessageString env (info_status env))),
            s\<lparr>events := events s @ [Git_config, SecFind (trim_repository url)]\<rparr>)
      else if copy_status env \<noteq> 0
      then (Inl (Fatal (SecCopyErrorMessageString env (copy_status env))),
            s\<lparr>events := events s @ [Git_config, SecFind (trim_repository url), SecCopy True]\<rparr>)
      else (Inr (Some (secret item)),
            s\<lparr>events := events s @ [Git_config, SecFind (trim_repository url), SecCopy True]\<rparr>))"
  using assms by (simp add: get_password_def find_keychain_item_eq emit_first)

lemma not_found_not_success: "errSecItemNotFound \<noteq> errSecSuccess"
  by (simp add: errSecItemNotFound_def errSecSuccess_def)

lemma get_username_miss:
  assumes "git_origin_url env = Inr url"
    and "SecKeychainFindGenericPassword env s (trim_repository url) = (errSecItemNotFound, found)"
  shows "get_username env s =
     (case getpass env ''Username: '' of
        None \<Rightarrow> (Inl Undefined_behaviour,
                 s\<lparr>events := events s @ [Git_config, SecFind (trim_repository url), Getpass ''Username: '']\<rparr>)
      | Some user \<Rightarrow>
         (case getpass env ''Password: '' of
            None \<Rightarrow> (Inl Undefined_behaviour,
                     s\<lparr>events := events s @ [Git_config, SecFind (trim_repository url),
                          Getpass ''Username: '', Getpass ''Password: '']\<rparr>)
          | Some pass \<Rightarrow>
             (if fst (SecKeychainItemCreateFromContent env s
                        (keychain_attributes (trim_repository url) user) pass) \<noteq> 0
              then (Inl (Fatal (SecCopyErrorMessageString env
                       (fst (SecKeychainItemCreateFromContent env s
                          (keychain_attributes (trim_repository url) user) pass)))),
                    s\<lparr>events := events s @ [Git_config, SecFind (trim_repository url),
                          Getpass ''Username: '', Getpass ''Password: '',
                          SecCreate (trim_repository url) user pass]\<rparr>)
              else (Inr (Some user),
                    s\<lparr>keychain := keychain s @
                          [\<lparr>attr = keychain_attributes (trim_repository url) user, secret = pass\<rparr>],
                      events := events s @ [Git_config, SecFind (trim_repository url),
                          Getpass ''Username: '', Getpass ''Password: '',
                          SecCreate (trim_repository url) user pass]\<rparr>))))"
  using assms not_found_not_success
  by (simp add: get_username_def find_keychain_item_eq prompt_eq create_keychain_item_eq
      emit_first Let_def split: option.splits)

lemma get_password_miss:
  assumes "git_origin_url env = Inr url"
    and "SecKeychainFindGenericPassword env s (trim_repository url) = (errSecItemNotFound, found)"
  shows "get_password env s =
     (case getpass env ''Password: '' of
        None \<Rightarrow> (Inl Undefined_behaviour,
                 s\<lparr>events := events s @ [Git_config, SecFind (trim_repository url), Getpass ''Password: '']\<rparr>)
      | Some pass \<Rightarrow>
         (if fst (SecKeychainItemCreateFromContent env s
                    (keychain_attributes (trim_repository url) []) pass) \<noteq> 0
          then (Inl (Fatal (SecCopyErrorMessageString env
                   (fst (SecKeychainItemCreateFromContent env s
                      (keychain_attributes (trim_repository url) []) pass)))),
                s\<lparr>events := events s @ [Git_config, SecFind (trim_repository url),
                      Getpass ''Password: '', SecCreate (trim_repository url) [] pass]\<rparr>)
          else (Inr (Some pass),
                s\<lparr>keychain := keychain s @
                      [\<lparr>attr = keychain_attributes (trim_repository url) [], secret = pass\<rparr>],
                  events := events s @ [Git_config, SecFind (trim_repository url),
                      Getpass ''Password: '', SecCreate (trim_repository url) [] pass]\<rparr>)))"
  using assms not_found_not_success
  by (simp add: get_password_def find_keychain_item_eq prompt_eq create_keychain_item_eq
      emit_first Let_def split: option.splits)

text \<open>\<open>main\<close>, once the verifier has answered.\<close>

lemma main_refused:
  "is_git_calling_us env \<noteq> Some (Inr True) \<Longrightarrow>
     snd (main env s) = emit Verify s \<and> (\<forall>text. fst (main env s) \<noteq> Returned text)"
  by (simp add: main_def Let_def split: option.splits sum.splits)

lemma main_username:
  assumes "is_git_calling_us env = Some (Inr True)" and "argv env = [program, ''Username: '']"
  shows "main env s = print_result (get_username env (emit Verify s))"
  using assms by (simp add: main_def Let_def)

lemma main_password:
  assumes "is_git_calling_us env = Some (Inr True)" and "argv env = [program, ''Password: '']"
  shows "main env s = print_result (get_password env (emit Verify s))"
  using assms by (simp add: main_def Let_def)

subsection \<open>The trust check comes first\<close>

text \<open>
  Claim C6. In every run the call of the trust verifier is the first call made: the calls
  of the run are \<open>Verify\<close> followed by the rest. Unless the verifier returned true, the
  run makes no other call (the state it leaves is the one it found, with \<open>Verify\<close>
  added: the keychain is untouched and nothing was prompted) and prints nothing. When the
  walk ends without a match, the run ends in \<open>fatal: can only be used by git\<close>,
  whatever the arguments are.
\<close>

theorem trust_check_first:
  "(\<exists>rest. events (snd (main env s)) = events s @ Verify # rest)
   \<and> (is_git_calling_us env \<noteq> Some (Inr True) \<longrightarrow>
        snd (main env s) = s\<lparr>events := events s @ [Verify]\<rparr>
        \<and> (\<forall>text. fst (main env s) \<noteq> Returned text))
   \<and> (is_git_calling_us env = Some (Inr False) \<longrightarrow>
        main env s = (Fatal ''can only be used by git'', s\<lparr>events := events s @ [Verify]\<rparr>))"
proof (intro conjI impI)
  obtain e1 where "events (snd (get_username env (emit Verify s))) = events (emit Verify s) @ e1"
    using get_username_events by blast
  then have u: "events (snd (get_username env (emit Verify s))) = events s @ Verify # e1"
    by simp
  obtain e2 where "events (snd (get_password env (emit Verify s))) = events (emit Verify s) @ e2"
    using get_password_events by blast
  then have p: "events (snd (get_password env (emit Verify s))) = events s @ Verify # e2"
    by simp
  show "\<exists>rest. events (snd (main env s)) = events s @ Verify # rest"
    using u p by (auto simp: main_def Let_def split: option.splits sum.splits)
next
  assume "is_git_calling_us env \<noteq> Some (Inr True)"
  then show "snd (main env s) = s\<lparr>events := events s @ [Verify]\<rparr>"
    using main_refused [of env s] by (simp add: emit_first)
next
  assume "is_git_calling_us env \<noteq> Some (Inr True)"
  then show "\<forall>text. fst (main env s) \<noteq> Returned text"
    using main_refused [of env s] by simp
next
  assume "is_git_calling_us env = Some (Inr False)"
  then show "main env s = (Fatal ''can only be used by git'', s\<lparr>events := events s @ [Verify]\<rparr>)"
    by (simp add: main_def Let_def emit_first)
qed

lemma is_git_calling_us_from_shell: "is_git_calling_us from_shell = Some (Inr False)"
  by (simp add: is_git_calling_us_def from_shell_def by_git_def snapshot0_def walk.simps)

text \<open>
  Started from the shell, the helper refuses after the trust check alone.
\<close>

theorem trust_check_first_witness:
  "is_git_calling_us from_shell = Some (Inr False)
   \<and> main from_shell fresh = (Fatal ''can only be used by git'', \<lparr>keychain = [], events = [Verify]\<rparr>)
   \<and> (\<exists>rest. events (snd (main from_shell fresh)) = events fresh @ Verify # rest)"
  using trust_check_first [of from_shell fresh] is_git_calling_us_from_shell
  by (simp add: fresh_def)

text \<open>
  Claim C2, as amended. With a wrong argument count, or an argument other than
  \<open>Username: \<close> and \<open>Password: \<close>, the run makes the trust verifier call and no other call:
  no \<open>git config\<close>, no keychain call, no prompt. It prints nothing on standard output, and
  when the verifier returned true it ends in \<open>fatal: can only be used by git\<close>.
\<close>

theorem usage_error_after_trust_check:
  assumes "length (argv env) \<noteq> 2 \<or> (argv env ! 1 \<noteq> ''Username: '' \<and> argv env ! 1 \<noteq> ''Password: '')"
  shows "snd (main env s) = s\<lparr>events := events s @ [Verify]\<rparr>
     \<and> (\<forall>text. fst (main env s) \<noteq> Returned text)
     \<and> (is_git_calling_us env = Some (Inr True) \<longrightarrow> fst (main env s) = Fatal ''can only be used by git'')"
proof (intro conjI impI)
  show "snd (main env s) = s\<lparr>events := events s @ [Verify]\<rparr>"
    using assms by (auto simp: main_def Let_def emit_first split: option.splits sum.splits)
next
  show "\<forall>text. fst (main env s) \<noteq> Returned text"
    using assms by (auto simp: main_def Let_def split: option.splits sum.splits)
next
  assume "is_git_calling_us env = Some (Inr True)"
  then show "fst (main env s) = Fatal ''can only be used by git''"
    using assms by (auto simp: main_def Let_def)
qed

text \<open>
  The argument \<open>Email: \<close>, below \<open>git\<close>.
\<close>

theorem usage_error_after_trust_check_witness:
  "argv asked_email = [''git-password'', ''Email: '']
   \<and> is_git_calling_us asked_email = Some (Inr True)
   \<and> snd (main asked_email fresh) = fresh\<lparr>events := events fresh @ [Verify]\<rparr>
   \<and> fst (main asked_email fresh) = Fatal ''can only be used by git''"
proof -
  have a: "length (argv asked_email) \<noteq> 2
      \<or> (argv asked_email ! 1 \<noteq> ''Username: '' \<and> argv asked_email ! 1 \<noteq> ''Password: '')"
    by (simp add: asked_email_def by_git_def)
  have b: "is_git_calling_us asked_email = Some (Inr True)"
    by (simp add: is_git_calling_us_def asked_email_def by_git_def snapshot0_def walk.simps)
  have c: "argv asked_email = [''git-password'', ''Email: '']"
    by (simp add: asked_email_def by_git_def)
  from b c usage_error_after_trust_check [OF a, of fresh] show ?thesis by blast
qed

text \<open>
  Claim C2 as stated fails: with the argument \<open>Email: \<close> the trust verifier has been
  called when the run ends; and when the snapshot cannot be taken, the run ends in
  \<open>fatal: sysctl failed\<close> and the argument is never looked at.
\<close>

theorem usage_error_first_counterexample:
  "argv asked_email = [''git-password'', ''Email: '']
   \<and> main asked_email fresh = (Fatal ''can only be used by git'', \<lparr>keychain = [], events = [Verify]\<rparr>)
   \<and> Verify \<in> set (events (snd (main asked_email fresh)))
   \<and> fst (main (asked_email\<lparr>sysctl_proc_all := Sysctl_failed\<rparr>) fresh) = Fatal ''sysctl failed''"
  by (simp add: main_def is_git_calling_us_def asked_email_def by_git_def snapshot0_def
      walk.simps fresh_def emit_def)

subsection \<open>Errors of the lookup\<close>

text \<open>
  Claim C8. In a run that gets as far as the lookup (trusted caller, a valid argument, a
  remote URL): a status of \<open>SecKeychainFindGenericPassword\<close> other than success and not
  found ends the run in \<open>fatal\<close> with the framework's message for that status, right after
  the lookup; so does a failure of either call that follows a successful lookup. The run
  prompts or creates exactly when the status is not found.
\<close>

theorem lookup_error_is_fatal:
  assumes "is_git_calling_us env = Some (Inr True)"
    and "argv env = [program, purpose]"
    and "purpose = ''Username: '' \<or> purpose = ''Password: ''"
    and "git_origin_url env = Inr url"
    and "SecKeychainFindGenericPassword env s (trim_repository url) = (status, found)"
  shows
  "(status \<noteq> errSecSuccess \<and> status \<noteq> errSecItemNotFound \<longrightarrow>
      main env s = (Fatal (SecCopyErrorMessageString env status),
                    s\<lparr>events := events s @ [Verify, Git_config, SecFind (trim_repository url)]\<rparr>))
   \<and> (status = errSecSuccess \<and> info_status env \<noteq> 0 \<longrightarrow>
      main env s = (Fatal (SecCopyErrorMessageString env (info_status env)),
                    s\<lparr>events := events s @ [Verify, Git_config, SecFind (trim_repository url)]\<rparr>))
   \<and> (status = errSecSuccess \<and> info_status env = 0 \<and> copy_status env \<noteq> 0 \<longrightarrow>
      main env s = (Fatal (SecCopyErrorMessageString env (copy_status env)),
                    s\<lparr>events := events s @ [Verify, Git_config, SecFind (trim_repository url),
                                               SecCopy (purpose = ''Password: '')]\<rparr>))
   \<and> (\<exists>rest. events (snd (main env s)) = events s @ rest
         \<and> ((\<exists>e \<in> set rest. prompt_call e \<or> create_call e) \<longleftrightarrow> status = errSecItemNotFound))"
proof -
  let ?s0 = "emit Verify s"
  have f: "SecKeychainFindGenericPassword env ?s0 (trim_repository url) = (status, found)"
    using assms(5) by simp
  have m: "main env s = print_result
      ((if purpose = ''Username: '' then get_username else get_password) env ?s0)"
    using assms(1-3) main_username [of env program s] main_password [of env program s] by auto
  consider (fault) "status \<noteq> errSecSuccess" "status \<noteq> errSecItemNotFound"
    | (hit) item where "status = errSecSuccess" "found = Some item"
    | (miss) "status = errSecItemNotFound"
    using find_status_cases [of env s "trim_repository url"] assms(5) by auto
  then show ?thesis
  proof cases
    case fault
    then show ?thesis
      using m get_username_fault [OF assms(4) f] get_password_fault [OF assms(4) f]
      by (simp add: print_result_def emit_first)
  next
    case hit
    with f have f': "SecKeychainFindGenericPassword env ?s0 (trim_repository url) = (errSecSuccess, Some item)"
      by simp
    show ?thesis
      using m hit(1) not_found_not_success assms(3)
        get_username_hit [OF assms(4) f'] get_password_hit [OF assms(4) f']
      by (auto simp: print_result_def emit_first split: option.splits)
  next
    case miss
    with f have f': "SecKeychainFindGenericPassword env ?s0 (trim_repository url) = (errSecItemNotFound, found)"
      by simp
    have "\<exists>rest. events (snd (main env s)) = events s @ rest \<and> (\<exists>e \<in> set rest. prompt_call e \<or> create_call e)"
      using m assms(3) get_username_miss [OF assms(4) f'] get_password_miss [OF assms(4) f']
      by (auto simp: print_result_def emit_first split: option.splits)
    with miss not_found_not_success show ?thesis by auto
  qed
qed

text \<open>
  A keychain that cannot be searched.
\<close>

theorem lookup_error_is_fatal_witness:
  "is_git_calling_us locked = Some (Inr True)
   \<and> argv locked = [''git-password'', ''Username: '']
   \<and> git_origin_url locked = Inr ''https://example.com/org/repo.git''
   \<and> SecKeychainFindGenericPassword locked fresh (trim_repository ''https://example.com/org/repo.git'')
        = (- 25308, None)
   \<and> main locked fresh = (Fatal ''The keychain call failed.'',
        \<lparr>keychain = [], events = [Verify, Git_config, SecFind ''https://example.com/'']\<rparr>)"
proof -
  have a: "is_git_calling_us locked = Some (Inr True)"
    by (simp add: is_git_calling_us_def locked_def by_git_def snapshot0_def walk.simps)
  have b: "argv locked = [''git-password'', ''Username: '']"
    and c: "''Username: '' = ''Username: '' \<or> ''Username: '' = ''Password: ''"
    and d: "git_origin_url locked = Inr ''https://example.com/org/repo.git''"
    and e: "SecKeychainFindGenericPassword locked fresh (trim_repository ''https://example.com/org/repo.git'')
        = (- 25308, None)"
    by (simp_all add: locked_def by_git_def SecKeychainFindGenericPassword_def)
  have k: "trim_repository ''https://example.com/org/repo.git'' = ''https://example.com/''"
    by (simp add: trim_repository_eq)
  have g: "SecCopyErrorMessageString locked (- 25308) = ''The keychain call failed.''"
    by (simp add: locked_def by_git_def errSecDuplicateItem_def)
  from lookup_error_is_fatal [OF a b c d e]
  have "main locked fresh = (Fatal (SecCopyErrorMessageString locked (- 25308)),
          fresh\<lparr>events := events fresh @ [Verify, Git_config,
            SecFind (trim_repository ''https://example.com/org/repo.git'')]\<rparr>)"
    by (simp add: errSecSuccess_def errSecItemNotFound_def)
  with a b d e show ?thesis by (simp add: k g fresh_def)
qed

subsection \<open>First use\<close>

lemma service_of_attributes [simp]:
  "map_of (keychain_attributes repository user) kSecServiceItemAttr = Some repository"
  "map_of (keychain_attributes repository user) kSecAccountItemAttr = Some user"
  by (simp_all add: keychain_attributes_def)

lemma account_of_attributes [simp]:
  "attributes_loop (keychain_attributes repository user) None = Some user"
  by (simp add: keychain_attributes_def)

lemma find_none_conj: "List.find P xs = None \<Longrightarrow> List.find (\<lambda>x. P x \<and> Q x) xs = None"
  by (auto simp: find_None_iff)

lemma find_miss:
  assumes "find_fault env = 0"
    and "List.find (\<lambda>item. item_attr kSecServiceItemAttr item = Some service) (keychain s) = None"
  shows "SecKeychainFindGenericPassword env s service = (errSecItemNotFound, None)"
  using assms by (simp add: SecKeychainFindGenericPassword_def)

lemma create_fresh:
  assumes "create_fault env = 0"
    and "List.find (\<lambda>item. item_attr kSecServiceItemAttr item = Some repository) (keychain s) = None"
  shows "fst (SecKeychainItemCreateFromContent env s (keychain_attributes repository user) data) = 0"
  using assms find_none_conj [OF assms(2), of "\<lambda>item. item_attr kSecAccountItemAttr item = Some user"]
  by (simp add: SecKeychainItemCreateFromContent_def errSecSuccess_def)

lemma password_first_run:
  assumes "is_git_calling_us env = Some (Inr True)"
    and "argv env = [program, ''Password: '']"
    and "git_origin_url env = Inr url"
    and "find_fault env = 0" and "create_fault env = 0"
    and "List.find (\<lambda>item. item_attr kSecServiceItemAttr item = Some (trim_repository url)) (keychain s) = None"
    and "getpass env ''Password: '' = Some pass"
  shows "main env s =
        (Returned pass,
         s\<lparr>keychain := keychain s @ [\<lparr>attr = keychain_attributes (trim_repository url) [], secret = pass\<rparr>],
           events := events s @ [Verify, Git_config, SecFind (trim_repository url),
                                 Getpass ''Password: '',
                                 SecCreate (trim_repository url) [] pass]\<rparr>)"
proof -
  let ?s0 = "emit Verify s"
  have k: "List.find (\<lambda>item. item_attr kSecServiceItemAttr item = Some (trim_repository url)) (keychain ?s0) = None"
    using assms(6) by simp
  have f: "SecKeychainFindGenericPassword env ?s0 (trim_repository url) = (errSecItemNotFound, None)"
    using assms(4) k by (rule find_miss)
  have c: "fst (SecKeychainItemCreateFromContent env ?s0 (keychain_attributes (trim_repository url) []) pass) = 0"
    using assms(5) k by (rule create_fresh)
  show ?thesis
    using assms(7) c main_password [OF assms(1,2), of s] get_password_miss [OF assms(3) f]
    by (simp add: print_result_def emit_first)
qed

text \<open>
  Claim C1, as amended. For a key with no item in the keychain, a keychain that answers,
  and a user who answers the prompts: asked for the username, the run prompts for the
  username and then for the password, creates an item with both, and prints the username
  just entered; asked for the password, it prompts for the password only, creates an item
  with the empty string as its account, and prints the password just entered.
\<close>

theorem first_use_prompts_and_stores:
  assumes "is_git_calling_us env = Some (Inr True)"
    and "git_origin_url env = Inr url"
    and "find_fault env = 0" and "create_fault env = 0"
    and "List.find (\<lambda>item. item_attr kSecServiceItemAttr item = Some (trim_repository url)) (keychain s) = None"
    and "getpass env ''Password: '' = Some pass"
  shows
  "(argv env = [program, ''Username: ''] \<and> getpass env ''Username: '' = Some user \<longrightarrow>
      main env s =
        (Returned user,
         s\<lparr>keychain := keychain s @ [\<lparr>attr = keychain_attributes (trim_repository url) user, secret = pass\<rparr>],
           events := events s @ [Verify, Git_config, SecFind (trim_repository url),
                                 Getpass ''Username: '', Getpass ''Password: '',
                                 SecCreate (trim_repository url) user pass]\<rparr>))
   \<and> (argv env = [program, ''Password: ''] \<longrightarrow>
      main env s =
        (Returned pass,
         s\<lparr>keychain := keychain s @ [\<lparr>attr = keychain_attributes (trim_repository url) [], secret = pass\<rparr>],
           events := events s @ [Verify, Git_config, SecFind (trim_repository url),
                                 Getpass ''Password: '',
                                 SecCreate (trim_repository url) [] pass]\<rparr>))"
proof (intro conjI impI)
  assume u: "argv env = [program, ''Username: ''] \<and> getpass env ''Username: '' = Some user"
  let ?s0 = "emit Verify s"
  have k: "List.find (\<lambda>item. item_attr kSecServiceItemAttr item = Some (trim_repository url)) (keychain ?s0) = None"
    using assms(5) by simp
  have f: "SecKeychainFindGenericPassword env ?s0 (trim_repository url) = (errSecItemNotFound, None)"
    using assms(3) k by (rule find_miss)
  have c: "fst (SecKeychainItemCreateFromContent env ?s0 (keychain_attributes (trim_repository url) user) pass) = 0"
    using assms(4) k by (rule create_fresh)
  show "main env s =
        (Returned user,
         s\<lparr>keychain := keychain s @ [\<lparr>attr = keychain_attributes (trim_repository url) user, secret = pass\<rparr>],
           events := events s @ [Verify, Git_config, SecFind (trim_repository url),
                                 Getpass ''Username: '', Getpass ''Password: '',
                                 SecCreate (trim_repository url) user pass]\<rparr>)"
    using assms(1,6) u c main_username [of env program s] get_username_miss [OF assms(2) f]
    by (simp add: print_result_def emit_first)
next
  assume "argv env = [program, ''Password: '']"
  with assms show "main env s =
        (Returned pass,
         s\<lparr>keychain := keychain s @ [\<lparr>attr = keychain_attributes (trim_repository url) [], secret = pass\<rparr>],
           events := events s @ [Verify, Git_config, SecFind (trim_repository url),
                                 Getpass ''Password: '',
                                 SecCreate (trim_repository url) [] pass]\<rparr>)"
    by (intro password_first_run)
qed

text \<open>
  The first use, asked for the username.
\<close>

theorem first_use_prompts_and_stores_witness:
  "main by_git fresh =
     (Returned ''alice'',
      \<lparr>keychain = [\<lparr>attr = keychain_attributes ''https://example.com/'' ''alice'', secret = ''s3cret''\<rparr>],
        events = [Verify, Git_config, SecFind ''https://example.com/'',
                  Getpass ''Username: '', Getpass ''Password: '',
                  SecCreate ''https://example.com/'' ''alice'' ''s3cret'']\<rparr>)"
proof -
  have a: "is_git_calling_us by_git = Some (Inr True)"
    by (rule is_git_calling_us_by_git)
  have b: "git_origin_url by_git = Inr ''https://example.com/org/repo.git''"
    and c: "find_fault by_git = 0" and d: "create_fault by_git = 0"
    and e: "List.find (\<lambda>item. item_attr kSecServiceItemAttr item
              = Some (trim_repository ''https://example.com/org/repo.git'')) (keychain fresh) = None"
    and f: "getpass by_git ''Password: '' = Some ''s3cret''"
    and g: "argv by_git = [''git-password'', ''Username: ''] \<and> getpass by_git ''Username: '' = Some ''alice''"
    by (simp_all add: by_git_def fresh_def)
  have k: "trim_repository ''https://example.com/org/repo.git'' = ''https://example.com/''"
    by (simp add: trim_repository_eq)
  from first_use_prompts_and_stores [OF a b c d e f, of "''git-password''" "''alice''"] g
  show ?thesis by (simp add: k fresh_def)
qed

text \<open>
  Claim C1 as stated fails when the password is asked for: there is no prompt for a
  username, and the item created has the empty account.
\<close>

theorem password_first_counterexample:
  "main by_git_password fresh =
     (Returned ''s3cret'',
      \<lparr>keychain = [\<lparr>attr = [(kSecLabelItemAttr, ''https://example.com/''),
                             (kSecDescriptionItemAttr, ''git repository password''),
                             (kSecAccountItemAttr, []),
                             (kSecServiceItemAttr, ''https://example.com/'')],
                     secret = ''s3cret''\<rparr>],
        events = [Verify, Git_config, SecFind ''https://example.com/'',
                  Getpass ''Password: '',
                  SecCreate ''https://example.com/'' [] ''s3cret'']\<rparr>)
   \<and> Getpass ''Username: '' \<notin> set (events (snd (main by_git_password fresh)))"
proof -
  have a: "is_git_calling_us by_git_password = Some (Inr True)"
    by (simp add: is_git_calling_us_def by_git_password_def by_git_def snapshot0_def walk.simps)
  have b: "git_origin_url by_git_password = Inr ''https://example.com/org/repo.git''"
    and r: "argv by_git_password = [''git-password'', ''Password: '']"
    and p: "getpass by_git_password ''Password: '' = Some ''s3cret''"
    by (simp_all add: by_git_password_def by_git_def)
  have k: "trim_repository ''https://example.com/org/repo.git'' = ''https://example.com/''"
    by (simp add: trim_repository_eq)
  have f: "SecKeychainFindGenericPassword by_git_password (emit Verify fresh)
             (trim_repository ''https://example.com/org/repo.git'') = (errSecItemNotFound, None)"
    by (simp add: SecKeychainFindGenericPassword_def by_git_password_def by_git_def fresh_def)
  have c: "fst (SecKeychainItemCreateFromContent by_git_password (emit Verify fresh)
             (keychain_attributes ''https://example.com/'' []) ''s3cret'') = 0"
    by (simp add: SecKeychainItemCreateFromContent_def by_git_password_def by_git_def fresh_def
        errSecSuccess_def)
  show ?thesis
    using main_password [OF a r, of fresh] get_password_miss [OF b f] p c
    by (simp add: print_result_def emit_first k fresh_def keychain_attributes_def)
qed

subsection \<open>A create that reports a duplicate\<close>

lemma duplicate_not_zero: "errSecDuplicateItem \<noteq> 0"
  by (simp add: errSecDuplicateItem_def)

text \<open>
  Claim C3, as amended. When \<open>SecKeychainItemCreateFromContent\<close> reports that the item
  exists already, the run ends in \<open>fatal\<close> with the framework's message for
  \<open>errSecDuplicateItem\<close>, as for every status other than \<open>0\<close>. The create call is the last
  call of the run: there is no further prompt, nothing is printed and the keychain is as
  it was.
\<close>

theorem duplicate_item_is_fatal:
  assumes "is_git_calling_us env = Some (Inr True)"
    and "git_origin_url env = Inr url"
    and "SecKeychainFindGenericPassword env s (trim_repository url) = (errSecItemNotFound, found)"
    and "getpass env ''Password: '' = Some pass"
  shows
  "(argv env = [program, ''Username: ''] \<and> getpass env ''Username: '' = Some user
      \<and> fst (SecKeychainItemCreateFromContent env s
                (keychain_attributes (trim_repository url) user) pass) = errSecDuplicateItem \<longrightarrow>
      main env s =
        (Fatal (SecCopyErrorMessageString env errSecDuplicateItem),
         s\<lparr>events := events s @ [Verify, Git_config, SecFind (trim_repository url),
                                 Getpass ''Username: '', Getpass ''Password: '',
                                 SecCreate (trim_repository url) user pass]\<rparr>))
   \<and> (argv env = [program, ''Password: '']
      \<and> fst (SecKeychainItemCreateFromContent env s
                (keychain_attributes (trim_repository url) []) pass) = errSecDuplicateItem \<longrightarrow>
      main env s =
        (Fatal (SecCopyErrorMessageString env errSecDuplicateItem),
         s\<lparr>events := events s @ [Verify, Git_config, SecFind (trim_repository url),
                                 Getpass ''Password: '',
                                 SecCreate (trim_repository url) [] pass]\<rparr>))"
proof -
  let ?s0 = "emit Verify s"
  have f: "SecKeychainFindGenericPassword env ?s0 (trim_repository url) = (errSecItemNotFound, found)"
    using assms(3) by simp
  show ?thesis
    using assms(1,4) duplicate_not_zero
      main_username [of env program s] main_password [of env program s]
      get_username_miss [OF assms(2) f] get_password_miss [OF assms(2) f]
    by (simp add: print_result_def emit_first)
qed

text \<open>
  Another process creates the item while the user is at the prompts.
\<close>

theorem duplicate_item_is_fatal_witness:
  "fst (SecKeychainItemCreateFromContent racing fresh
          (keychain_attributes ''https://example.com/'' ''alice'') ''s3cret'') = errSecDuplicateItem
   \<and> main racing fresh =
     (Fatal ''The specified item already exists in the keychain.'',
      \<lparr>keychain = [],
        events = [Verify, Git_config, SecFind ''https://example.com/'',
                  Getpass ''Username: '', Getpass ''Password: '',
                  SecCreate ''https://example.com/'' ''alice'' ''s3cret'']\<rparr>)"
proof -
  have a: "is_git_calling_us racing = Some (Inr True)"
    by (simp add: is_git_calling_us_def racing_def by_git_def snapshot0_def walk.simps)
  have k: "trim_repository ''https://example.com/org/repo.git'' = ''https://example.com/''"
    by (simp add: trim_repository_eq)
  have b: "git_origin_url racing = Inr ''https://example.com/org/repo.git''"
    and c: "SecKeychainFindGenericPassword racing fresh
              (trim_repository ''https://example.com/org/repo.git'') = (errSecItemNotFound, None)"
    and d: "getpass racing ''Password: '' = Some ''s3cret''"
    and e: "argv racing = [''git-password'', ''Username: '']"
    and g: "getpass racing ''Username: '' = Some ''alice''"
    and h: "fst (SecKeychainItemCreateFromContent racing fresh
          (keychain_attributes (trim_repository ''https://example.com/org/repo.git'') ''alice'')
          ''s3cret'') = errSecDuplicateItem"
    and m: "SecCopyErrorMessageString racing errSecDuplicateItem
              = ''The specified item already exists in the keychain.''"
    by (simp_all add: racing_def by_git_def fresh_def SecKeychainFindGenericPassword_def
        SecKeychainItemCreateFromContent_def errSecDuplicateItem_def)
  from duplicate_item_is_fatal [OF a b c d, of "''git-password''" "''alice''"] e g h
  have "main racing fresh =
        (Fatal (SecCopyErrorMessageString racing errSecDuplicateItem),
         fresh\<lparr>events := events fresh @ [Verify, Git_config,
                                 SecFind (trim_repository ''https://example.com/org/repo.git''),
                                 Getpass ''Username: '', Getpass ''Password: '',
                                 SecCreate (trim_repository ''https://example.com/org/repo.git'')
                                   ''alice'' ''s3cret'']\<rparr>)"
    by blast
  with h show ?thesis by (simp add: k m fresh_def)
qed

text \<open>
  Claim C3 as stated fails: the create call reports a duplicate and the run ends in
  \<open>fatal\<close>.
\<close>

theorem duplicate_tolerated_counterexample:
  "fst (SecKeychainItemCreateFromContent racing fresh
          (keychain_attributes ''https://example.com/'' ''alice'') ''s3cret'') = errSecDuplicateItem
   \<and> fst (main racing fresh) = Fatal ''The specified item already exists in the keychain.''
   \<and> (\<forall>text. fst (main racing fresh) \<noteq> Returned text)"
proof -
  have a: "is_git_calling_us racing = Some (Inr True)"
    by (simp add: is_git_calling_us_def racing_def by_git_def snapshot0_def walk.simps)
  have k: "trim_repository ''https://example.com/org/repo.git'' = ''https://example.com/''"
    by (simp add: trim_repository_eq)
  have b: "git_origin_url racing = Inr ''https://example.com/org/repo.git''"
    and c: "SecKeychainFindGenericPassword racing (emit Verify fresh)
              (trim_repository ''https://example.com/org/repo.git'') = (errSecItemNotFound, None)"
    and e: "argv racing = [''git-password'', ''Username: '']"
    and h: "fst (SecKeychainItemCreateFromContent racing (emit Verify fresh)
          (keychain_attributes ''https://example.com/'' ''alice'')
          ''s3cret'') = - 25299"
    and h': "fst (SecKeychainItemCreateFromContent racing fresh
          (keychain_attributes ''https://example.com/'' ''alice'')
          ''s3cret'') = errSecDuplicateItem"
    by (simp_all add: racing_def by_git_def fresh_def SecKeychainFindGenericPassword_def
        SecKeychainItemCreateFromContent_def errSecDuplicateItem_def)
  have "fst (main racing fresh) = Fatal ''The specified item already exists in the keychain.''"
    using main_username [OF a e, of fresh] get_username_miss [OF b c] h
    by (simp add: print_result_def k racing_def by_git_def errSecDuplicateItem_def)
  with h' show ?thesis by simp
qed

subsection \<open>Password first, username later\<close>

lemma find_append_eq:
  "List.find P (xs @ ys) = (case List.find P xs of None \<Rightarrow> List.find P ys | Some x \<Rightarrow> Some x)"
  by (induction xs) auto

text \<open>
  Claim C9. A run asked for the password, for a key with no item in the keychain, leaves
  an item for that key whose account is the empty string. Every later run asked for the
  username of the same key, on a keychain that has grown from that one and answers the
  lookup, prints the empty string, and its calls are the trust check, \<open>git config\<close>, the
  lookup and the copy of the attributes: there is no prompt.
\<close>

theorem password_first_leaves_empty_username:
  assumes "is_git_calling_us env = Some (Inr True)"
    and "argv env = [program, ''Password: '']"
    and "git_origin_url env = Inr url"
    and "find_fault env = 0" and "create_fault env = 0"
    and "List.find (\<lambda>item. item_attr kSecServiceItemAttr item = Some (trim_repository url)) (keychain s) = None"
    and "getpass env ''Password: '' = Some pass"
    and "is_git_calling_us env' = Some (Inr True)"
    and "argv env' = [program', ''Username: '']"
    and "git_origin_url env' = Inr url'"
    and "trim_repository url' = trim_repository url"
    and "find_fault env' = 0" and "info_status env' = 0" and "copy_status env' = 0"
    and "keychain s' = keychain (snd (main env s)) @ later"
  shows
  "List.find (\<lambda>item. item_attr kSecServiceItemAttr item = Some (trim_repository url))
       (keychain (snd (main env s)))
     = Some \<lparr>attr = keychain_attributes (trim_repository url) [], secret = pass\<rparr>
   \<and> item_attr kSecAccountItemAttr \<lparr>attr = keychain_attributes (trim_repository url) [], secret = pass\<rparr>
     = Some []
   \<and> main env' s' =
       (Returned [],
        s'\<lparr>events := events s' @ [Verify, Git_config, SecFind (trim_repository url), SecCopy False]\<rparr>)"
proof -
  let ?item = "\<lparr>attr = keychain_attributes (trim_repository url) [], secret = pass\<rparr>"
  let ?P = "\<lambda>item. item_attr kSecServiceItemAttr item = Some (trim_repository url)"
  have "main env s = (Returned pass,
         s\<lparr>keychain := keychain s @ [?item],
           events := events s @ [Verify, Git_config, SecFind (trim_repository url),
                                 Getpass ''Password: '', SecCreate (trim_repository url) [] pass]\<rparr>)"
    using assms(1-7) by (rule password_first_run)
  then have k: "keychain (snd (main env s)) = keychain s @ [?item]"
    by simp
  have p: "?P ?item"
    by (simp add: item_attr_def)
  have "List.find ?P (keychain s @ [?item] @ later) = Some ?item"
    using assms(6) p by (simp add: find_append_eq)
  with k assms(15) have f1: "List.find ?P (keychain (snd (main env s))) = Some ?item"
    and f2: "List.find ?P (keychain s') = Some ?item"
    using assms(6) p by (simp_all add: find_append_eq)
  from f2 assms(12) have
    "SecKeychainFindGenericPassword env' (emit Verify s') (trim_repository url') = (errSecSuccess, Some ?item)"
    by (simp add: SecKeychainFindGenericPassword_def assms(11))
  from get_username_hit [OF assms(10) this] assms(13,14)
  have "get_username env' (emit Verify s') =
      (Inr (Some []), s'\<lparr>events := events s' @ [Verify, Git_config, SecFind (trim_repository url), SecCopy False]\<rparr>)"
    by (simp add: assms(11) emit_first)
  then have "main env' s' =
       (Returned [], s'\<lparr>events := events s' @ [Verify, Git_config, SecFind (trim_repository url), SecCopy False]\<rparr>)"
    using main_username [OF assms(8,9), of s'] by (simp add: print_result_def)
  with f1 show ?thesis by (simp add: item_attr_def)
qed


text \<open>
  The first use asked for the password, then a run asked for the username.
\<close>

theorem password_first_leaves_empty_username_witness:
  "fst (main by_git (snd (main by_git_password fresh))) = Returned []
   \<and> events (snd (main by_git (snd (main by_git_password fresh))))
       = events (snd (main by_git_password fresh))
         @ [Verify, Git_config, SecFind ''https://example.com/'', SecCopy False]
   \<and> List.find (\<lambda>item. item_attr kSecServiceItemAttr item = Some ''https://example.com/'')
         (keychain (snd (main by_git_password fresh)))
       = Some \<lparr>attr = keychain_attributes ''https://example.com/'' [], secret = ''s3cret''\<rparr>"
proof -
  have a: "is_git_calling_us by_git_password = Some (Inr True)"
    by (simp add: is_git_calling_us_def by_git_password_def by_git_def snapshot0_def walk.simps)
  have k: "trim_repository ''https://example.com/org/repo.git'' = ''https://example.com/''"
    by (simp add: trim_repository_eq)
  have b: "argv by_git_password = [''git-password'', ''Password: '']"
    and c: "git_origin_url by_git_password = Inr ''https://example.com/org/repo.git''"
    and d: "find_fault by_git_password = 0" and e: "create_fault by_git_password = 0"
    and f: "List.find (\<lambda>item. item_attr kSecServiceItemAttr item
              = Some (trim_repository ''https://example.com/org/repo.git'')) (keychain fresh) = None"
    and g: "getpass by_git_password ''Password: '' = Some ''s3cret''"
    by (simp_all add: by_git_password_def by_git_def fresh_def)
  have b': "argv by_git = [''git-password'', ''Username: '']"
    and c': "git_origin_url by_git = Inr ''https://example.com/org/repo.git''"
    and t: "trim_repository ''https://example.com/org/repo.git''
              = trim_repository ''https://example.com/org/repo.git''"
    and d': "find_fault by_git = 0" and i: "info_status by_git = 0" and j: "copy_status by_git = 0"
    and l: "keychain (snd (main by_git_password fresh)) = keychain (snd (main by_git_password fresh)) @ []"
    by (simp_all add: by_git_def)
  from password_first_leaves_empty_username
    [OF a b c d e f g is_git_calling_us_by_git b' c' t d' i j l]
  show ?thesis by (simp add: k)
qed

end
